theory Spec2Isabelle
  imports Complex_Main "HOL-Library.Sublist" "HOL-Library.Multiset"
begin

section \<open>JavaScript values used by the itinerary engine\<close>

text \<open>
  Numbers are modelled as exact reals (integers where the source rounds): rounding error,
  NaN and the infinities of IEEE doubles are outside this development, except where a
  definition below says otherwise. Strings are byte strings; case conversion is the ASCII one.
\<close>

datatype error = TypeError

text \<open>
  Reading a key of an object literal: the literal's own entries come first, then the
  properties every object inherits from \<open>Object.prototype\<close>. An inherited property is
  neither \<open>undefined\<close> nor \<open>null\<close>, so \<open>??\<close> does not replace it.
\<close>

datatype 'a property = Own 'a | Inherited | Absent

definition objectPrototypeKeys :: "string list" where
  "objectPrototypeKeys =
     [''constructor'', ''__proto__'', ''hasOwnProperty'', ''isPrototypeOf'',
      ''propertyIsEnumerable'', ''toLocaleString'', ''toString'', ''valueOf'',
      ''__defineGetter__'', ''__defineSetter__'', ''__lookupGetter__'', ''__lookupSetter__'']"

definition getProperty :: "(string \<times> 'a) list \<Rightarrow> string \<Rightarrow> 'a property" where
  "getProperty obj k =
     (case map_of obj k of
        Some v \<Rightarrow> Own v
      | None \<Rightarrow> if k \<in> set objectPrototypeKeys then Inherited else Absent)"

definition toLowerChar :: "char \<Rightarrow> char" where
  "toLowerChar c =
     (case map_of (zip ''ABCDEFGHIJKLMNOPQRSTUVWXYZ'' ''abcdefghijklmnopqrstuvwxyz'') c of
        Some l \<Rightarrow> l
      | None \<Rightarrow> c)"

definition toLowerCase :: "string \<Rightarrow> string" where
  "toLowerCase s = map toLowerChar s"

definition toUpperChar :: "char \<Rightarrow> char" where
  "toUpperChar c =
     (case map_of (zip ''abcdefghijklmnopqrstuvwxyz'' ''ABCDEFGHIJKLMNOPQRSTUVWXYZ'') c of
        Some u \<Rightarrow> u
      | None \<Rightarrow> c)"

text \<open>\<open>s.includes(t)\<close>: \<open>t\<close> occurs in \<open>s\<close> as a contiguous substring.\<close>

fun includesStr :: "string \<Rightarrow> string \<Rightarrow> bool" where
  "includesStr [] t = (t = [])"
| "includesStr (c # s) t = (prefix t (c # s) \<or> includesStr s t)"

text \<open>\<open>Math.round\<close> rounds halves upwards.\<close>

definition mathRound :: "real \<Rightarrow> int" where
  "mathRound x = \<lfloor>x + 1 / 2\<rfloor>"

section \<open>Data model (types/state.ts)\<close>

record location =
  lat :: real
  lng :: real

record venue =
  name :: string
  placeId :: string
  mapsUrl :: string
  address :: string
  location :: location
  priceLevel :: "real option"
  rating :: "real option"
  reviewCount :: "real option"
  category :: string

datatype walkingLevel = Low | Medium | High

record preferences =
  vibe :: "string list"
  dietary :: "string list"
  alcoholOk :: bool
  walking :: walkingLevel
  indoorsPreferred :: bool
  likes :: "string list"
  familyFriendly :: bool

section \<open>Venue scoring (agent/ranking.ts)\<close>

definition PRICE_LEVEL_EUR :: "real \<Rightarrow> (real \<times> real) option" where
  "PRICE_LEVEL_EUR p =
     (if p = 0 then Some (0, 10)
      else if p = 1 then Some (10, 25)
      else if p = 2 then Some (25, 50)
      else if p = 3 then Some (50, 100)
      else if p = 4 then Some (100, 200)
      else None)"

text \<open>\<open>Math.atan2(y, x)\<close>.\<close>

definition atan2 :: "real \<Rightarrow> real \<Rightarrow> real" where
  "atan2 y x =
     (if 0 < x then arctan (y / x)
      else if x < 0 then (if 0 \<le> y then arctan (y / x) + pi else arctan (y / x) - pi)
      else if 0 < y then pi / 2
      else if y < 0 then - (pi / 2)
      else 0)"

definition calculateDistance :: "location \<Rightarrow> location \<Rightarrow> real" where
  "calculateDistance loc1 loc2 =
     (let R = 6371000;
          lat1 = (lat loc1 * pi) / 180;
          lat2 = (lat loc2 * pi) / 180;
          dLat = ((lat loc2 - lat loc1) * pi) / 180;
          dLng = ((lng loc2 - lng loc1) * pi) / 180;
          a = sin (dLat / 2) * sin (dLat / 2)
              + cos lat1 * cos lat2 * sin (dLng / 2) * sin (dLng / 2);
          c = 2 * atan2 (sqrt a) (sqrt (1 - a))
      in R * c)"

definition calculateCentroid :: "venue list \<Rightarrow> location" where
  "calculateCentroid venues =
     (if length venues = 0 then \<lparr>lat = 0, lng = 0\<rparr>
      else
        (let sum = foldl (\<lambda>acc v. \<lparr>lat = lat acc + lat (location v),
                                     lng = lng acc + lng (location v)\<rparr>)
                         \<lparr>lat = 0, lng = 0\<rparr> venues
         in \<lparr>lat = lat sum / real (length venues), lng = lng sum / real (length venues)\<rparr>))"

text \<open>\<open>!venue.rating\<close> holds for a missing rating and for the rating \<open>0\<close>.\<close>

definition scoreRating :: "venue \<Rightarrow> real" where
  "scoreRating v =
     (case rating v of
        None \<Rightarrow> 1 / 2
      | Some r \<Rightarrow> if r = 0 then 1 / 2 else max 0 (min 1 ((r - 3) / 2)))"

definition scoreProximity :: "venue \<Rightarrow> location \<Rightarrow> real" where
  "scoreProximity v reference =
     (let distance = calculateDistance (location v) reference
      in if distance \<le> 500 then 1
         else if distance \<ge> 5000 then 0
         else 1 - (distance - 500) / 4500)"

definition scorePriceMatch :: "venue \<Rightarrow> real \<Rightarrow> real" where
  "scorePriceMatch v targetBudgetPerPerson =
     (case priceLevel v of
        None \<Rightarrow> 1 / 2
      | Some p \<Rightarrow>
          (case PRICE_LEVEL_EUR p of
             None \<Rightarrow> 1 / 2
           | Some (mn, mx) \<Rightarrow>
               if targetBudgetPerPerson \<ge> mn \<and> targetBudgetPerPerson \<le> mx then 1
               else if targetBudgetPerPerson < mn
                    then max (1 / 10) (7 / 10 - (mn - targetBudgetPerPerson) / 50)
               else 8 / 10))"

definition vibeKeywords :: "(string \<times> string list) list" where
  "vibeKeywords =
     [(''romantic'', [''intimate'', ''candlelit'', ''cozy'', ''wine'', ''french'', ''italian'']),
      (''adventurous'', [''escape'', ''adventure'', ''tour'', ''climb'', ''explore'']),
      (''relaxed'', [''lounge'', ''cafe'', ''garden'', ''terrace'', ''spa'']),
      (''fancy'', [''michelin'', ''fine dining'', ''premium'', ''gourmet'', ''luxur'']),
      (''playful'', [''game'', ''bowling'', ''arcade'', ''karaoke'', ''comedy''])]"

text \<open>The loop over the user's likes: each like found in the name or the category adds 0.15.\<close>

fun likesLoop :: "string \<Rightarrow> string \<Rightarrow> string list \<Rightarrow> real \<Rightarrow> real" where
  "likesLoop venueName venueCategory [] score = score"
| "likesLoop venueName venueCategory (like # ls) score =
     likesLoop venueName venueCategory ls
       (if includesStr venueName like \<or> includesStr venueCategory like
        then score + 15 / 100 else score)"

fun keywordsLoop :: "string \<Rightarrow> string list \<Rightarrow> real \<Rightarrow> real" where
  "keywordsLoop venueName [] score = score"
| "keywordsLoop venueName (keyword # ks) score =
     keywordsLoop venueName ks (if includesStr venueName keyword then score + 1 / 10 else score)"

text \<open>
  The loop over the vibes. \<open>vibeKeywords[vibe] ?? []\<close> is the empty list for an unknown
  vibe; for a vibe that names an inherited property it is that property (a function, or
  the prototype object), and \<open>for ... of\<close> over it raises a TypeError.
\<close>

fun vibesLoop :: "string \<Rightarrow> string list \<Rightarrow> real \<Rightarrow> error + real" where
  "vibesLoop venueName [] score = Inr score"
| "vibesLoop venueName (v # vs) score =
     (case getProperty vibeKeywords v of
        Own keywords \<Rightarrow> vibesLoop venueName vs (keywordsLoop venueName keywords score)
      | Absent \<Rightarrow> vibesLoop venueName vs score
      | Inherited \<Rightarrow> Inl TypeError)"

definition scorePreferenceMatch :: "venue \<Rightarrow> preferences \<Rightarrow> error + real" where
  "scorePreferenceMatch v prefs =
     (let ls = map toLowerCase (likes prefs);
          vibes = map toLowerCase (vibe prefs);
          venueName = toLowerCase (name v);
          venueCategory = toLowerCase (category v)
      in case vibesLoop venueName vibes (likesLoop venueName venueCategory ls (1 / 2)) of
           Inl e \<Rightarrow> Inl e
         | Inr score \<Rightarrow> Inr (min 1 score))"

definition scoreReviewCount :: "venue \<Rightarrow> real" where
  "scoreReviewCount v =
     (case reviewCount v of
        None \<Rightarrow> 3 / 10
      | Some n \<Rightarrow>
          if n = 0 then 3 / 10
          else if n \<ge> 500 then 1
          else if n \<ge> 100 then 8 / 10
          else if n \<ge> 50 then 6 / 10
          else if n \<ge> 20 then 4 / 10
          else 3 / 10)"

text \<open>
  The component scores of a \<open>ScoredVenue\<close> (\<open>scores.rating\<close>, \<open>scores.proximity\<close>, ... in the
  source; suffixed here, since \<open>rating\<close> and \<open>reviewCount\<close> are fields of a venue).
\<close>

record scores =
  ratingScore :: real
  proximityScore :: real
  priceMatchScore :: real
  preferenceMatchScore :: real
  reviewCountScore :: real

record scoredVenue =
  venue :: venue
  score :: real
  scores :: scores

text \<open>The callback of \<open>venues.map\<close> in \<open>rankVenues\<close>.\<close>

definition scoreVenue :: "preferences \<Rightarrow> real \<Rightarrow> location \<Rightarrow> venue \<Rightarrow> error + scoredVenue" where
  "scoreVenue prefs targetBudgetPerPerson reference v =
     (case scorePreferenceMatch v prefs of
        Inl e \<Rightarrow> Inl e
      | Inr pm \<Rightarrow>
          (let sc = \<lparr>ratingScore = scoreRating v,
                     proximityScore = scoreProximity v reference,
                     priceMatchScore = scorePriceMatch v targetBudgetPerPerson,
                     preferenceMatchScore = pm,
                     reviewCountScore = scoreReviewCount v\<rparr>;
               totalScore = ratingScore sc * (30 / 100)
                          + proximityScore sc * (25 / 100)
                          + priceMatchScore sc * (20 / 100)
                          + preferenceMatchScore sc * (15 / 100)
                          + reviewCountScore sc * (10 / 100)
           in Inr \<lparr>venue = v, score = totalScore, scores = sc\<rparr>))"

text \<open>\<open>Array.prototype.map\<close> with a callback that may throw: the first exception ends it.\<close>

fun mapE :: "('a \<Rightarrow> error + 'b) \<Rightarrow> 'a list \<Rightarrow> error + 'b list" where
  "mapE f [] = Inr []"
| "mapE f (x # xs) =
     (case f x of
        Inl e \<Rightarrow> Inl e
      | Inr y \<Rightarrow> (case mapE f xs of Inl e \<Rightarrow> Inl e | Inr ys \<Rightarrow> Inr (y # ys)))"

text \<open>
  \<open>scored.sort((a, b) => b.score - a.score)\<close>: \<open>Array.prototype.sort\<close> is stable, so the result
  is the stable sort by descending score.
\<close>

definition sortByScore :: "scoredVenue list \<Rightarrow> scoredVenue list" where
  "sortByScore scored = sort_key (\<lambda>sv. - score sv) scored"

definition rankVenues ::
  "venue list \<Rightarrow> preferences \<Rightarrow> real \<Rightarrow> location option \<Rightarrow> error + scoredVenue list" where
  "rankVenues venues prefs targetBudgetPerPerson referenceLocation =
     (let reference = (case referenceLocation of
                         Some l \<Rightarrow> l
                       | None \<Rightarrow> calculateCentroid venues)
      in case mapE (scoreVenue prefs targetBudgetPerPerson reference) venues of
           Inl e \<Rightarrow> Inl e
         | Inr scored \<Rightarrow> Inr (sortByScore scored))"


section \<open>Proximity clustering (agent/ranking.ts)\<close>

text \<open>
  The inner loop of \<open>clusterByProximity\<close>: every venue not yet assigned and within the
  radius of the seed joins the seed's cluster. The state is the cluster under construction
  and the set of assigned place ids.
\<close>

fun absorbNearby ::
  "real \<Rightarrow> venue \<Rightarrow> venue list \<Rightarrow> venue list \<times> string set \<Rightarrow> venue list \<times> string set" where
  "absorbNearby maxD seed [] (cluster, assigned) = (cluster, assigned)"
| "absorbNearby maxD seed (other # rest) (cluster, assigned) =
     (if placeId other \<in> assigned then absorbNearby maxD seed rest (cluster, assigned)
      else if calculateDistance (location seed) (location other) \<le> maxD
           then absorbNearby maxD seed rest (cluster @ [other], insert (placeId other) assigned)
           else absorbNearby maxD seed rest (cluster, assigned))"

text \<open>The outer loop: each venue not yet assigned opens a cluster.\<close>

fun clusterLoop ::
  "real \<Rightarrow> venue list \<Rightarrow> venue list \<Rightarrow> venue list list \<times> string set
     \<Rightarrow> venue list list \<times> string set" where
  "clusterLoop maxD venues [] (clusters, assigned) = (clusters, assigned)"
| "clusterLoop maxD venues (v # rest) (clusters, assigned) =
     (if placeId v \<in> assigned then clusterLoop maxD venues rest (clusters, assigned)
      else clusterLoop maxD venues rest
             (case absorbNearby maxD v venues ([v], insert (placeId v) assigned) of
                (cluster, assigned') \<Rightarrow> (clusters @ [cluster], assigned')))"

text \<open>
  The radius is optional and defaults to 1500 metres. The final
  \<open>clusters.sort((a, b) => b.length - a.length)\<close> is the stable sort by descending size.
\<close>

definition clusterByProximity :: "venue list \<Rightarrow> real option \<Rightarrow> venue list list" where
  "clusterByProximity venues maxDistanceMeters =
     (let maxD = (case maxDistanceMeters of Some d \<Rightarrow> d | None \<Rightarrow> 1500)
      in if length venues = 0 then []
         else sort_key (\<lambda>c. - int (length c)) (fst (clusterLoop maxD venues venues ([], {}))))"

text \<open>The invariant of the outer loop, used in the proof of the partition property.\<close>

definition clusterInv :: "venue list \<Rightarrow> venue list list \<times> string set \<Rightarrow> bool" where
  "clusterInv venues st =
     (case st of (clusters, assigned) \<Rightarrow>
        assigned = placeId ` set (concat clusters)
        \<and> set (concat clusters) \<subseteq> set venues
        \<and> distinct (map placeId (concat clusters))
        \<and> [] \<notin> set clusters)"

section \<open>Finalist selection (agent/ranking.ts)\<close>

text \<open>An object with the three keys \<open>activity\<close>, \<open>dinner\<close> and \<open>finish\<close>.\<close>

record 'a perCategory =
  activity :: 'a
  dinner :: 'a
  finish :: 'a

record selection =
  selected :: "string \<rightharpoonup> venue"
  backups :: "string \<rightharpoonup> venue list"

text \<open>
  \<open>if (ranked.length > 0 && ranked[0]) { selected[c] = ranked[0].venue;
  backups[c] = ranked.slice(1, 1 + n).map((s) => s.venue); }\<close>, which the source
  writes out once per category and again after each re-ranking.
\<close>

definition pick :: "string \<Rightarrow> nat \<Rightarrow> scoredVenue list \<Rightarrow> selection \<Rightarrow> selection" where
  "pick c n ranked sel =
     (case ranked of
        [] \<Rightarrow> sel
      | s # _ \<Rightarrow> \<lparr>selected = (selected sel)(c \<mapsto> venue s),
                  backups = (backups sel)(c \<mapsto> map venue (take n (drop 1 ranked)))\<rparr>)"

text \<open>
  \<open>if (ranked.length > 1) { const reranked = rankVenues(pool, preferences, budget,
  dinnerLocation); if (reranked[0]) { ... } }\<close>.
\<close>

definition rerank ::
  "string \<Rightarrow> venue list \<Rightarrow> preferences \<Rightarrow> real \<Rightarrow> location \<Rightarrow> scoredVenue list
     \<Rightarrow> selection \<Rightarrow> error + selection" where
  "rerank c pool prefs budget dinnerLocation ranked sel =
     (if length ranked > 1
      then (case rankVenues pool prefs budget (Some dinnerLocation) of
              Inl e \<Rightarrow> Inl e
            | Inr reranked \<Rightarrow> Inr (pick c 2 reranked sel))
      else Inr sel)"

definition selectBestVenues ::
  "venue list perCategory \<Rightarrow> preferences \<Rightarrow> real perCategory \<Rightarrow> error + selection" where
  "selectBestVenues pools prefs budgetPerCategory =
     (case rankVenues (activity pools) prefs (activity budgetPerCategory) None of
        Inl e \<Rightarrow> Inl e
      | Inr rankedActivity \<Rightarrow>
     (case rankVenues (dinner pools) prefs (dinner budgetPerCategory) None of
        Inl e \<Rightarrow> Inl e
      | Inr rankedDinner \<Rightarrow>
     (case rankVenues (finish pools) prefs (finish budgetPerCategory) None of
        Inl e \<Rightarrow> Inl e
      | Inr rankedFinish \<Rightarrow>
     (let sel0 = \<lparr>selected = Map.empty,
                  backups = [''activity'' \<mapsto> [], ''dinner'' \<mapsto> [], ''finish'' \<mapsto> []]\<rparr>;
          sel1 = pick ''activity'' 2 rankedActivity sel0;
          sel2 = pick ''dinner'' 3 rankedDinner sel1;
          sel3 = pick ''finish'' 2 rankedFinish sel2
      in case selected sel3 ''dinner'' of
           None \<Rightarrow> Inr sel3
         | Some d \<Rightarrow>
             (case rerank ''activity'' (activity pools) prefs (activity budgetPerCategory)
                     (location d) rankedActivity sel3 of
                Inl e \<Rightarrow> Inl e
              | Inr sel4 \<Rightarrow>
                  rerank ''finish'' (finish pools) prefs (finish budgetPerCategory)
                    (location d) rankedFinish sel4)))))"

section \<open>Skeleton builder\<close>

record budget =
  amount :: real
  currency :: string

datatype slotType = Drinks | Activity | Dinner | Dessert | Scenic

text \<open>
  A skeleton slot. \<open>slotType\<close> is the field \<open>type\<close> and \<open>slotLabel\<close> the field \<open>label\<close> of the
  source. Every duration the builder handles is an integer literal or the result of
  \<open>Math.floor\<close> or \<open>Math.round\<close>.
\<close>

record skeletonSlot =
  slotLabel :: string
  slotType :: slotType
  budgetPercent :: real
  timeStart :: "string option"
  durationMins :: "int option"

record timeWindow =
  windowStart :: string
  windowEnd :: string

record skeleton =
  slots :: "skeletonSlot list"
  totalBudget :: real
  timeWindow :: timeWindow

definition DEFAULT_TEMPLATE :: "skeletonSlot list" where
  "DEFAULT_TEMPLATE =
     [\<lparr>slotLabel = ''Arrival drink'', slotType = Drinks, budgetPercent = 15,
       timeStart = None, durationMins = Some 45\<rparr>,
      \<lparr>slotLabel = ''Main activity'', slotType = Activity, budgetPercent = 25,
       timeStart = None, durationMins = Some 90\<rparr>,
      \<lparr>slotLabel = ''Dinner'', slotType = Dinner, budgetPercent = 50,
       timeStart = None, durationMins = Some 90\<rparr>,
      \<lparr>slotLabel = ''Nightcap / Dessert'', slotType = Dessert, budgetPercent = 10,
       timeStart = None, durationMins = Some 45\<rparr>]"

definition LATE_START_TEMPLATE :: "skeletonSlot list" where
  "LATE_START_TEMPLATE =
     [\<lparr>slotLabel = ''Dinner'', slotType = Dinner, budgetPercent = 55,
       timeStart = None, durationMins = Some 100\<rparr>,
      \<lparr>slotLabel = ''Activity / Walk'', slotType = Activity, budgetPercent = 25,
       timeStart = None, durationMins = Some 60\<rparr>,
      \<lparr>slotLabel = ''Nightcap'', slotType = Drinks, budgetPercent = 20,
       timeStart = None, durationMins = Some 45\<rparr>]"

definition AFTERNOON_TEMPLATE :: "skeletonSlot list" where
  "AFTERNOON_TEMPLATE =
     [\<lparr>slotLabel = ''Coffee / Light bite'', slotType = Drinks, budgetPercent = 15,
       timeStart = None, durationMins = Some 30\<rparr>,
      \<lparr>slotLabel = ''Main activity'', slotType = Activity, budgetPercent = 50,
       timeStart = None, durationMins = Some 120\<rparr>,
      \<lparr>slotLabel = ''Late lunch / Early dinner'', slotType = Dinner, budgetPercent = 35,
       timeStart = None, durationMins = Some 75\<rparr>]"

definition BUDGET_TEMPLATE :: "skeletonSlot list" where
  "BUDGET_TEMPLATE =
     [\<lparr>slotLabel = ''Scenic walk / Free activity'', slotType = Scenic, budgetPercent = 5,
       timeStart = None, durationMins = Some 45\<rparr>,
      \<lparr>slotLabel = ''Main activity'', slotType = Activity, budgetPercent = 30,
       timeStart = None, durationMins = Some 90\<rparr>,
      \<lparr>slotLabel = ''Dinner'', slotType = Dinner, budgetPercent = 55,
       timeStart = None, durationMins = Some 75\<rparr>,
      \<lparr>slotLabel = ''Dessert / Walk'', slotType = Dessert, budgetPercent = 10,
       timeStart = None, durationMins = Some 30\<rparr>]"

definition FANCY_TEMPLATE :: "skeletonSlot list" where
  "FANCY_TEMPLATE =
     [\<lparr>slotLabel = ''Champagne / Aperitif'', slotType = Drinks, budgetPercent = 12,
       timeStart = None, durationMins = Some 45\<rparr>,
      \<lparr>slotLabel = ''Premium activity'', slotType = Activity, budgetPercent = 28,
       timeStart = None, durationMins = Some 90\<rparr>,
      \<lparr>slotLabel = ''Fine dining'', slotType = Dinner, budgetPercent = 50,
       timeStart = None, durationMins = Some 120\<rparr>,
      \<lparr>slotLabel = ''Cocktails / Nightcap'', slotType = Drinks, budgetPercent = 10,
       timeStart = None, durationMins = Some 45\<rparr>]"

subsection \<open>Parsing and printing clock times\<close>

definition digitValue :: "char \<Rightarrow> nat option" where
  "digitValue c = map_of (zip ''0123456789'' [0, 1, 2, 3, 4, 5, 6, 7, 8, 9]) c"

definition isWhiteSpace :: "char \<Rightarrow> bool" where
  "isWhiteSpace c = (c \<in> set [CHR 0x09, CHR 0x0A, CHR 0x0B, CHR 0x0C, CHR 0x0D, CHR '' ''])"

text \<open>The values of the longest prefix of decimal digits.\<close>

fun digitsPrefix :: "string \<Rightarrow> nat list" where
  "digitsPrefix [] = []"
| "digitsPrefix (c # cs) = (case digitValue c of Some d \<Rightarrow> d # digitsPrefix cs | None \<Rightarrow> [])"

definition decimalValue :: "nat list \<Rightarrow> nat" where
  "decimalValue ds = foldl (\<lambda>acc d. 10 * acc + d) 0 ds"

text \<open>
  \<open>parseInt(s, 10)\<close>: leading white space, an optional sign, then the longest run of
  decimal digits; \<open>None\<close> stands for the result NaN (no digit at that place).
\<close>

definition parseInt10 :: "string \<Rightarrow> int option" where
  "parseInt10 s =
     (let t = dropWhile isWhiteSpace s;
          neg = (case t of c # _ \<Rightarrow> c = CHR ''-'' | [] \<Rightarrow> False);
          u = (case t of c # r \<Rightarrow> if c = CHR ''-'' \<or> c = CHR ''+'' then r else t | [] \<Rightarrow> t);
          ds = digitsPrefix u
      in if ds = [] then None
         else Some (if neg then - int (decimalValue ds) else int (decimalValue ds)))"

text \<open>\<open>s.split(c)\<close> for a one-character separator: never the empty array.\<close>

fun splitOn :: "char \<Rightarrow> string \<Rightarrow> string list" where
  "splitOn c [] = [[]]"
| "splitOn c (x # xs) =
     (if x = c then [] # splitOn c xs
      else (case splitOn c xs of p # ps \<Rightarrow> (x # p) # ps | [] \<Rightarrow> [[x]]))"

text \<open>\<open>parseTime\<close>: minutes since midnight; \<open>None\<close> stands for NaN.\<close>

definition parseTime :: "string \<Rightarrow> int option" where
  "parseTime time =
     (let parts = splitOn CHR '':'' time
      in case parseInt10 (case parts of p0 # _ \<Rightarrow> p0 | [] \<Rightarrow> ''0'') of
           None \<Rightarrow> None
         | Some hours \<Rightarrow>
             (case parseInt10 (case parts of _ # p1 # _ \<Rightarrow> p1 | _ \<Rightarrow> ''0'') of
                None \<Rightarrow> None
              | Some minutes \<Rightarrow> Some (hours * 60 + minutes)))"

text \<open>The remainder operator \<open>%\<close> on integers: the result has the sign of the dividend.\<close>

definition jsRemainder :: "int \<Rightarrow> int \<Rightarrow> int" where
  "jsRemainder a b = (if a < 0 then - ((- a) mod \<bar>b\<bar>) else a mod \<bar>b\<bar>)"

definition digitChar :: "nat \<Rightarrow> char" where
  "digitChar d = ''0123456789'' ! d"

function showNat :: "nat \<Rightarrow> string" where
  "showNat n = (if n < 10 then [digitChar n] else showNat (n div 10) @ [digitChar (n mod 10)])"
  by pat_completeness auto
termination
  by (relation "measure id") auto

declare showNat.simps [simp del]

text \<open>\<open>toString()\<close> of an integer.\<close>

definition showInt :: "int \<Rightarrow> string" where
  "showInt i = (if i < 0 then CHR ''-'' # showNat (nat (- i)) else showNat (nat i))"

text \<open>\<open>s.padStart(2, "0")\<close>.\<close>

definition padStart2 :: "string \<Rightarrow> string" where
  "padStart2 s = replicate (2 - length s) CHR ''0'' @ s"

text \<open>\<open>formatTime\<close>; a NaN argument prints as \<open>NaN:NaN\<close>.\<close>

definition formatTime :: "int option \<Rightarrow> string" where
  "formatTime minutes =
     (case minutes of
        None \<Rightarrow> ''NaN:NaN''
      | Some mins \<Rightarrow>
          (let h = jsRemainder (mins div 60) 24;
               m = jsRemainder mins 60
           in padStart2 (showInt h) @ '':'' @ padStart2 (showInt m)))"

subsection \<open>Template selection, scaling and start times\<close>

text \<open>
  \<open>endMins > startMins ? endMins - startMins : (24 * 60 - startMins) + endMins\<close>, the
  length of the window in \<open>selectTemplate\<close> and in \<open>adjustDurations\<close>.
\<close>

definition windowMins :: "int \<Rightarrow> int \<Rightarrow> int" where
  "windowMins startMins endMins =
     (if endMins > startMins then endMins - startMins else (24 * 60 - startMins) + endMins)"

text \<open>
  A comparison with NaN is false, so with an unparsable time the time rules of
  \<open>selectTemplate\<close> do not fire.
\<close>

definition selectTemplate :: "budget \<Rightarrow> string \<Rightarrow> string \<Rightarrow> skeletonSlot list" where
  "selectTemplate b startTime endTime =
     (let startMins = parseTime startTime;
          endMins = parseTime endTime;
          durationMinutes = (case (startMins, endMins) of
                               (Some s, Some e) \<Rightarrow> Some (windowMins s e)
                             | _ \<Rightarrow> None)
      in if amount b < 80 then BUDGET_TEMPLATE
         else if amount b > 250 then FANCY_TEMPLATE
         else if (case startMins of Some s \<Rightarrow> s \<ge> 20 * 60 | None \<Rightarrow> False)
              then LATE_START_TEMPLATE
         else if (case startMins of Some s \<Rightarrow> s \<ge> 14 * 60 | None \<Rightarrow> False)
                 \<and> (case endMins of Some e \<Rightarrow> e \<le> 18 * 60 | None \<Rightarrow> False)
              then AFTERNOON_TEMPLATE
         else (case durationMinutes of
                 Some d \<Rightarrow>
                   if d < 180
                   then [\<lparr>slotLabel = ''Activity'', slotType = Activity, budgetPercent = 40,
                          timeStart = None, durationMins = Some \<lfloor>real_of_int d * (4 / 10)\<rfloor>\<rparr>,
                         \<lparr>slotLabel = ''Dinner / Drinks'', slotType = Dinner,
                          budgetPercent = 60,
                          timeStart = None, durationMins = Some \<lfloor>real_of_int d * (6 / 10)\<rfloor>\<rparr>]
                   else DEFAULT_TEMPLATE
               | None \<Rightarrow> DEFAULT_TEMPLATE))"

text \<open>
  \<open>adjustDurations\<close>. With an unparsable time and a positive template total the scale and
  all durations are NaN, which a slot of this development does not hold: the result is
  \<open>None\<close> then.
\<close>

definition adjustDurations ::
  "skeletonSlot list \<Rightarrow> string \<Rightarrow> string \<Rightarrow> skeletonSlot list option" where
  "adjustDurations sls startTime endTime =
     (let availableMins = (case (parseTime startTime, parseTime endTime) of
                             (Some s, Some e) \<Rightarrow> Some (windowMins s e)
                           | _ \<Rightarrow> None);
          totalTemplateMins =
            foldl (\<lambda>sum s. sum + (case durationMins s of Some d \<Rightarrow> d | None \<Rightarrow> 0)) 0 sls;
          scale = (if totalTemplateMins > 0
                   then (case availableMins of
                           Some a \<Rightarrow> Some (real_of_int a / real_of_int totalTemplateMins)
                         | None \<Rightarrow> None)
                   else Some 1)
      in case scale of
           None \<Rightarrow> None
         | Some k \<Rightarrow>
             Some (map (\<lambda>slot. slot\<lparr>durationMins :=
                          Some (mathRound (real_of_int (case durationMins slot of
                                                          Some d \<Rightarrow> d | None \<Rightarrow> 60) * k))\<rparr>)
                       sls))"

text \<open>The \<open>map\<close> of \<open>assignTimes\<close>, with the running clock as an argument.\<close>

fun assignTimesFrom :: "int option \<Rightarrow> skeletonSlot list \<Rightarrow> skeletonSlot list" where
  "assignTimesFrom currentMins [] = []"
| "assignTimesFrom currentMins (slot # rest) =
     slot\<lparr>timeStart := Some (formatTime currentMins)\<rparr>
     # assignTimesFrom
         (map_option (\<lambda>c. c + (case durationMins slot of Some d \<Rightarrow> d | None \<Rightarrow> 60) + 10)
            currentMins)
         rest"

definition assignTimes :: "skeletonSlot list \<Rightarrow> string \<Rightarrow> skeletonSlot list" where
  "assignTimes sls startTime = assignTimesFrom (parseTime startTime) sls"

definition buildSkeleton :: "budget \<Rightarrow> string \<Rightarrow> string \<Rightarrow> skeleton option" where
  "buildSkeleton b startTime endTime =
     (case adjustDurations (selectTemplate b startTime endTime) startTime endTime of
        None \<Rightarrow> None
      | Some adjusted \<Rightarrow>
          Some \<lparr>slots = assignTimes adjusted startTime,
                totalBudget = amount b,
                timeWindow = \<lparr>windowStart = startTime, windowEnd = endTime\<rparr>\<rparr>)"

definition validateSkeleton :: "skeleton \<Rightarrow> bool" where
  "validateSkeleton sk =
     (let totalPercent = foldl (\<lambda>sum s. sum + budgetPercent s) 0 (slots sk)
      in totalPercent \<ge> 95 \<and> totalPercent \<le> 105)"

subsection \<open>Well-formed times\<close>

text \<open>
  A well-formed time is two digits, a colon and two digits, with the hours below 24 and
  the minutes below 60; \<open>minutesOfDay\<close> is the time of day it denotes, in minutes.
\<close>

definition isDigit :: "char \<Rightarrow> bool" where
  "isDigit c = (digitValue c \<noteq> None)"

definition digitOf :: "char \<Rightarrow> nat" where
  "digitOf c = (case digitValue c of Some d \<Rightarrow> d | None \<Rightarrow> 0)"

definition clockHours :: "string \<Rightarrow> nat" where
  "clockHours t = 10 * digitOf (t ! 0) + digitOf (t ! 1)"

definition clockMinutes :: "string \<Rightarrow> nat" where
  "clockMinutes t = 10 * digitOf (t ! 3) + digitOf (t ! 4)"

definition wellFormedTime :: "string \<Rightarrow> bool" where
  "wellFormedTime t =
     (length t = 5 \<and> isDigit (t ! 0) \<and> isDigit (t ! 1) \<and> t ! 2 = CHR '':''
      \<and> isDigit (t ! 3) \<and> isDigit (t ! 4) \<and> clockHours t < 24 \<and> clockMinutes t < 60)"

definition minutesOfDay :: "string \<Rightarrow> int" where
  "minutesOfDay t = int (60 * clockHours t + clockMinutes t)"

text \<open>The totals of the slot durations and of the budget shares of a skeleton.\<close>

definition slotDuration :: "skeletonSlot \<Rightarrow> int" where
  "slotDuration s = (case durationMins s of Some d \<Rightarrow> d | None \<Rightarrow> 0)"

definition totalDuration :: "skeleton \<Rightarrow> int" where
  "totalDuration sk = sum_list (map slotDuration (slots sk))"

definition totalPercent :: "skeleton \<Rightarrow> real" where
  "totalPercent sk = sum_list (map budgetPercent (slots sk))"

text \<open>The type and the budget share of each slot, in order.\<close>

definition slotShares :: "skeletonSlot list \<Rightarrow> (slotType \<times> real) list" where
  "slotShares sls = map (\<lambda>s. (slotType s, budgetPercent s)) sls"

section \<open>Plan builder (agent/graph.ts)\<close>

datatype planId = PlanA | PlanB | PlanC

datatype mode = Standard | Verified

text \<open>
  A number as the cost estimate handles it: a finite real, or \<open>NonFinite\<close> for NaN and the
  infinities (a division by zero, or arithmetic on a value that is not a number). The
  operations below multiply by positive constants and round, which keep a non-finite
  value non-finite.
\<close>

datatype jsnum = Finite real | NonFinite

fun timesConst :: "jsnum \<Rightarrow> real \<Rightarrow> jsnum" where
  "timesConst (Finite x) c = Finite (x * c)"
| "timesConst NonFinite c = NonFinite"

fun roundNum :: "jsnum \<Rightarrow> jsnum" where
  "roundNum (Finite x) = Finite (real_of_int (mathRound x))"
| "roundNum NonFinite = NonFinite"

text \<open>
  A stop of a plan. \<open>stopVenue\<close> is the field \<open>venue\<close> of the source. The field \<open>time\<close> is
  \<open>None\<close> where the clock string is one this development does not compute (see
  \<open>addMinutes\<close>).
\<close>

record stop =
  time :: "string option"
  label :: string
  stopVenue :: venue
  estimatedCostRange :: "jsnum \<times> jsnum"
  whyItFits :: string
  travelFromPrevMins :: real
  openCheck :: string

text \<open>A backup (fields \<open>label\<close>, \<open>name\<close>, \<open>mapsUrl\<close> and \<open>whyBackup\<close> of the source).\<close>

record backup =
  backupLabel :: string
  backupName :: string
  backupMapsUrl :: string
  whyBackup :: string

text \<open>A plan (fields \<open>id\<close>, \<open>title\<close>, \<open>stops\<close> and \<open>backups\<close> of the source).\<close>

record plan =
  planId :: planId
  title :: string
  stops :: "stop list"
  planBackups :: "backup list"

text \<open>
  \<open>Number(s)\<close> for a non-empty string of decimal digits; \<open>None\<close> for every other string,
  whose value is not computed here.
\<close>

definition digitsNumber :: "string \<Rightarrow> int option" where
  "digitsNumber s =
     (if s \<noteq> [] \<and> list_all isDigit s then Some (int (decimalValue (map digitOf s))) else None)"

text \<open>
  \<open>addMinutes\<close>. The result is computed when the hour and minute parts of the time are
  digit strings and the minutes added are an integer; otherwise (a part that is not a digit
  string, a fractional or non-numeric number of minutes) it is \<open>None\<close>.
\<close>

definition addMinutes :: "string option \<Rightarrow> real option \<Rightarrow> string option" where
  "addMinutes t mins =
     (case (t, mins) of
        (Some clock, Some k) \<Rightarrow>
          (let parts = splitOn CHR '':'' clock;
               h = (case parts of p0 # _ \<Rightarrow> digitsNumber p0 | [] \<Rightarrow> Some 0);
               m = (case parts of _ # p1 # _ \<Rightarrow> digitsNumber p1 | _ \<Rightarrow> Some 0)
           in case (h, m) of
                (Some hh, Some mm) \<Rightarrow>
                  if k = real_of_int \<lfloor>k\<rfloor>
                  then (let totalMins = hh * 60 + mm + \<lfloor>k\<rfloor>;
                            newH = jsRemainder (totalMins div 60) 24;
                            newM = jsRemainder totalMins 60
                        in Some (padStart2 (showInt newH) @ '':'' @ padStart2 (showInt newM)))
                  else None
              | _ \<Rightarrow> None)
      | _ \<Rightarrow> None)"

text \<open>
  \<open>venue.rating ?? "good"\<close> inside a template string; the text of a number is given by the
  parameter \<open>numberToString\<close>.
\<close>

definition ratingText :: "(real \<Rightarrow> string) \<Rightarrow> venue \<Rightarrow> string" where
  "ratingText numberToString v = (case rating v of Some r \<Rightarrow> numberToString r | None \<Rightarrow> ''good'')"

definition venueToBackup :: "(real \<Rightarrow> string) \<Rightarrow> venue \<Rightarrow> backup" where
  "venueToBackup numberToString v =
     \<lparr>backupLabel = (if category v = ''dinner'' then ''Dinner backup'' else ''Activity backup''),
      backupName = name v,
      backupMapsUrl = mapsUrl v,
      whyBackup = ''Alternative '' @ category v @ '' with '' @ ratingText numberToString v
                  @ '' rating''\<rparr>"

text \<open>The \<open>filter\<close> that drops a venue whose place id was seen before.\<close>

fun dedupe :: "string set \<Rightarrow> venue list \<Rightarrow> venue list" where
  "dedupe seen [] = []"
| "dedupe seen (v # vs) =
     (if placeId v \<in> seen then dedupe seen vs else v # dedupe (insert (placeId v) seen) vs)"

fun indexOfFrom :: "nat \<Rightarrow> string list \<Rightarrow> string \<Rightarrow> int" where
  "indexOfFrom i [] x = - 1"
| "indexOfFrom i (y # ys) x = (if y = x then int i else indexOfFrom (Suc i) ys x)"

definition categoryRank :: "string list \<Rightarrow> venue \<Rightarrow> int" where
  "categoryRank categoryOrder v =
     (let i = indexOfFrom 0 categoryOrder (category v) in if i = - 1 then 999 else i)"

text \<open>The shares of the per-person budget in the object literal \<open>categoryBudgets\<close>.\<close>

definition categoryShares :: "(string \<times> real) list" where
  "categoryShares =
     [(''dinner'', 45 / 100), (''activity'', 30 / 100), (''drinks'', 15 / 100),
      (''dessert'', 10 / 100), (''finish'', 15 / 100), (''scenic'', 5 / 100)]"

text \<open>\<open>[0.5, 0.75, 1.0, 1.3, 1.6][priceLevel] ?? 1.0\<close>.\<close>

definition priceMultiplier :: "real \<Rightarrow> real" where
  "priceMultiplier p =
     (if p = 0 then 1 / 2
      else if p = 1 then 3 / 4
      else if p = 2 then 1
      else if p = 3 then 13 / 10
      else if p = 4 then 16 / 10
      else 1)"

text \<open>
  The cost estimate of the loop body. A category that names an inherited property reads a
  function (or the prototype object) out of \<open>categoryBudgets\<close>, and the product is NaN.
\<close>

definition estimateCost :: "jsnum \<Rightarrow> nat \<Rightarrow> venue \<Rightarrow> jsnum \<times> jsnum" where
  "estimateCost perPersonBudget numStops v =
     (let categoryBudget = (case getProperty categoryShares (category v) of
                              Own share \<Rightarrow> timesConst perPersonBudget share
                            | Absent \<Rightarrow> timesConst perPersonBudget (1 / real numStops)
                            | Inherited \<Rightarrow> NonFinite);
          level = (case priceLevel v of Some p \<Rightarrow> p | None \<Rightarrow> 2);
          baseCost = timesConst categoryBudget (priceMultiplier level)
      in (roundNum (timesConst baseCost (8 / 10)), roundNum (timesConst baseCost (12 / 10))))"

text \<open>
  The label of a stop and the updated counters. For a base label that names an inherited
  property the counter read is not a number, the comparison with 1 is false and the label
  stays the base label.
\<close>

definition capitalize :: "string \<Rightarrow> string" where
  "capitalize s = (case s of [] \<Rightarrow> [] | c # cs \<Rightarrow> toUpperChar c # cs)"

definition nextLabel :: "(string \<rightharpoonup> nat) \<Rightarrow> string \<Rightarrow> string \<times> (string \<rightharpoonup> nat)" where
  "nextLabel labelCounts cat =
     (let baseLabel = capitalize cat
      in if baseLabel \<in> set objectPrototypeKeys then (baseLabel, labelCounts)
         else (let n = (case labelCounts baseLabel of Some k \<Rightarrow> k | None \<Rightarrow> 0) + 1
               in (if n > 1 then baseLabel @ '' '' @ showNat n else baseLabel,
                   labelCounts(baseLabel \<mapsto> n))))"

text \<open>The dwell times of the object literal \<open>durations\<close>.\<close>

definition durations :: "(string \<times> real) list" where
  "durations =
     [(''drinks'', 45), (''activity'', 90), (''dinner'', 90), (''dessert'', 30),
      (''finish'', 60), (''scenic'', 30)]"

text \<open>
  The loop over the sorted venues; its state is the running clock, the place id of the
  previous venue and the label counters. \<open>if (prevVenueId)\<close> is false for the empty string
  as well as before the first venue.
\<close>

fun stopsLoop ::
  "(real \<Rightarrow> string) \<Rightarrow> (string \<rightharpoonup> real) \<Rightarrow> mode \<Rightarrow> jsnum \<Rightarrow> nat \<Rightarrow> venue list
     \<Rightarrow> string option \<Rightarrow> string option \<Rightarrow> (string \<rightharpoonup> nat) \<Rightarrow> stop list" where
  "stopsLoop numberToString travelTimes md perPersonBudget numStops []
     currentTime prevVenueId labelCounts = []"
| "stopsLoop numberToString travelTimes md perPersonBudget numStops (v # rest)
     currentTime prevVenueId labelCounts =
     (let hasPrev = (case prevVenueId of Some p \<Rightarrow> p \<noteq> [] | None \<Rightarrow> False);
          travelFromPrev =
            (case prevVenueId of
               Some p \<Rightarrow>
                 if p \<noteq> []
                 then (case travelTimes (p @ ''->'' @ placeId v) of Some t \<Rightarrow> t | None \<Rightarrow> 10)
                 else 0
             | None \<Rightarrow> 0);
          arrival = (if hasPrev then addMinutes currentTime (Some travelFromPrev)
                     else currentTime);
          labelled = nextLabel labelCounts (category v);
          dwell = (case getProperty durations (category v) of
                     Own d \<Rightarrow> Some d
                   | Absent \<Rightarrow> Some 60
                   | Inherited \<Rightarrow> None)
      in \<lparr>time = arrival,
          label = fst labelled,
          stopVenue = v,
          estimatedCostRange = estimateCost perPersonBudget numStops v,
          whyItFits = ''Great option with '' @ ratingText numberToString v @ '' rating'',
          travelFromPrevMins = travelFromPrev,
          openCheck = (if md = Verified then ''Verified: Check hours in Maps''
                       else ''Standard (confirm hours in Maps)'')\<rparr>
         # stopsLoop numberToString travelTimes md perPersonBudget numStops rest
             (addMinutes arrival dwell) (Some (placeId v)) (snd labelled))"

text \<open>
  \<open>buildPlanFromVenues\<close>. The last three parameters are optional in the source, with the
  defaults \<open>false\<close>, 100 and 2. The sort by category priority is stable.
\<close>

definition buildPlanFromVenues ::
  "(real \<Rightarrow> string) \<Rightarrow> planId \<Rightarrow> string \<Rightarrow> venue list \<Rightarrow> venue list \<Rightarrow> string
     \<Rightarrow> (string \<rightharpoonup> real) \<Rightarrow> mode \<Rightarrow> bool option \<Rightarrow> real option \<Rightarrow> real option \<Rightarrow> plan" where
  "buildPlanFromVenues numberToString pid ttl venues backupVenues startTime travelTimes md
     familyFriendlyArg budgetArg partySizeArg =
     (let isFamily = (case familyFriendlyArg of Some f \<Rightarrow> f | None \<Rightarrow> False);
          budgetTotal = (case budgetArg of Some x \<Rightarrow> x | None \<Rightarrow> 100);
          partySize = (case partySizeArg of Some n \<Rightarrow> n | None \<Rightarrow> 2);
          uniqueVenues = dedupe {} venues;
          categoryOrder =
            (if isFamily
             then [''activity'', ''dinner'', ''dessert'', ''scenic'', ''finish'', ''drinks'']
             else [''drinks'', ''activity'', ''dinner'', ''dessert'', ''finish'', ''scenic'']);
          sortedVenues = sort_key (categoryRank categoryOrder) uniqueVenues;
          numStops = (if length sortedVenues = 0 then 3 else length sortedVenues);
          perPersonBudget = (if partySize = 0 then NonFinite
                             else Finite (budgetTotal / partySize))
      in \<lparr>planId = pid,
          title = ttl,
          stops = stopsLoop numberToString travelTimes md perPersonBudget numStops sortedVenues
                    (Some startTime) None Map.empty,
          planBackups = map (venueToBackup numberToString) backupVenues\<rparr>)"

text \<open>A cost range of two finite numbers with the low end not above the high end.\<close>

definition orderedRange :: "jsnum \<times> jsnum \<Rightarrow> bool" where
  "orderedRange r = (case r of (Finite lo, Finite hi) \<Rightarrow> lo \<le> hi | _ \<Rightarrow> False)"

section \<open>Example data\<close>

definition exampleVenueA :: venue where
  "exampleVenueA =
     \<lparr>name = ''Cozy Wine Bar'', placeId = ''p1'', mapsUrl = ''https://maps.example/p1'',
      address = ''1 Main Street'', location = \<lparr>lat = 0, lng = 0\<rparr>, priceLevel = Some 2,
      rating = Some 5, reviewCount = Some 600, category = ''dinner''\<rparr>"

definition exampleVenueB :: venue where
  "exampleVenueB =
     \<lparr>name = ''Corner Diner'', placeId = ''p2'', mapsUrl = ''https://maps.example/p2'',
      address = ''2 Main Street'', location = \<lparr>lat = 0, lng = 0\<rparr>, priceLevel = None,
      rating = Some (7 / 2), reviewCount = Some 10, category = ''dinner''\<rparr>"

definition examplePrefs :: preferences where
  "examplePrefs =
     \<lparr>vibe = [''Romantic''], dietary = [], alcoholOk = True, walking = Medium,
      indoorsPreferred = False, likes = [''wine''], familyFriendly = False\<rparr>"

definition exampleScoredA :: scoredVenue where
  "exampleScoredA =
     \<lparr>venue = exampleVenueA, score = 391 / 400,
      scores = \<lparr>ratingScore = 1, proximityScore = 1, priceMatchScore = 1,
                preferenceMatchScore = 17 / 20, reviewCountScore = 1\<rparr>\<rparr>"

definition exampleScoredB :: scoredVenue where
  "exampleScoredB =
     \<lparr>venue = exampleVenueB, score = 53 / 100,
      scores = \<lparr>ratingScore = 1 / 4, proximityScore = 1, priceMatchScore = 1 / 2,
                preferenceMatchScore = 1 / 2, reviewCountScore = 3 / 10\<rparr>\<rparr>"

definition examplePools :: "venue list perCategory" where
  "examplePools = \<lparr>activity = [exampleVenueB, exampleVenueA],
                    dinner = [exampleVenueB, exampleVenueA], finish = [exampleVenueA]\<rparr>"

definition exampleBudgets :: "real perCategory" where
  "exampleBudgets = \<lparr>activity = 30, dinner = 30, finish = 30\<rparr>"
definition exampleBudget :: budget where
  "exampleBudget = \<lparr>amount = 150, currency = ''EUR''\<rparr>"
definition exampleNumberText :: "real \<Rightarrow> string" where
  "exampleNumberText r = (if r = 5 then ''5'' else if r = 7 / 2 then ''3.5'' else ''4'')"

section \<open>Properties of the venue scorer\<close>

lemma likesLoop_ge: "s0 \<le> likesLoop vn vc ls s0"
proof (induction ls arbitrary: s0)
  case Nil
  show ?case by simp
next
  case (Cons l ls)
  have "s0 \<le> (if includesStr vn l \<or> includesStr vc l then s0 + 15 / 100 else s0)"
    by simp
  also have "\<dots> \<le> likesLoop vn vc (l # ls) s0"
    using Cons.IH by simp
  finally show ?case .
qed

lemma keywordsLoop_ge: "s0 \<le> keywordsLoop vn ks s0"
proof (induction ks arbitrary: s0)
  case Nil
  show ?case by simp
next
  case (Cons k ks)
  have "s0 \<le> (if includesStr vn k then s0 + 1 / 10 else s0)"
    by simp
  also have "\<dots> \<le> keywordsLoop vn (k # ks) s0"
    using Cons.IH by simp
  finally show ?case .
qed

lemma vibesLoop_ge: "vibesLoop vn vs s0 = Inr s \<Longrightarrow> s0 \<le> s"
proof (induction vs arbitrary: s0)
  case Nil
  then show ?case by simp
next
  case (Cons v vs)
  show ?case
  proof (cases "getProperty vibeKeywords v")
    case (Own ks)
    with Cons.prems have "vibesLoop vn vs (keywordsLoop vn ks s0) = Inr s" by simp
    then have "keywordsLoop vn ks s0 \<le> s" by (rule Cons.IH)
    with keywordsLoop_ge [of s0 vn ks] show ?thesis by linarith
  next
    case Inherited
    with Cons.prems show ?thesis by simp
  next
    case Absent
    with Cons.prems have "vibesLoop vn vs s0 = Inr s" by simp
    then show ?thesis by (rule Cons.IH)
  qed
qed

lemma scorePreferenceMatch_range:
  assumes "scorePreferenceMatch v prefs = Inr s"
  shows "1 / 2 \<le> s \<and> s \<le> 1"
proof -
  let ?vn = "toLowerCase (name v)"
  let ?start = "likesLoop ?vn (toLowerCase (category v)) (map toLowerCase (likes prefs)) (1 / 2)"
  from assms obtain raw where raw: "vibesLoop ?vn (map toLowerCase (vibe prefs)) ?start = Inr raw"
    and s: "s = min 1 raw"
    by (auto simp: scorePreferenceMatch_def Let_def split: sum.splits)
  have "1 / 2 \<le> ?start" by (rule likesLoop_ge)
  moreover have "?start \<le> raw" using raw by (rule vibesLoop_ge)
  ultimately show ?thesis using s by simp
qed

lemma scoreRating_range: "0 \<le> scoreRating v \<and> scoreRating v \<le> 1"
  by (simp add: scoreRating_def split: option.splits)

lemma scoreProximity_range: "0 \<le> scoreProximity v r \<and> scoreProximity v r \<le> 1"
  by (simp add: scoreProximity_def Let_def)

lemma scorePriceMatch_range: "0 \<le> scorePriceMatch v t \<and> scorePriceMatch v t \<le> 1"
proof (cases "priceLevel v")
  case None
  then show ?thesis by (simp add: scorePriceMatch_def)
next
  case (Some p)
  show ?thesis
  proof (cases "PRICE_LEVEL_EUR p")
    case None
    with Some show ?thesis by (simp add: scorePriceMatch_def)
  next
    case band: (Some mm)
    obtain mn mx where mm: "mm = (mn, mx)" by (cases mm)
    have over: "t < mn \<Longrightarrow> 7 / 10 - (mn - t) / 50 \<le> 1"
    proof -
      assume "t < mn"
      then have "0 \<le> (mn - t) / 50" by simp
      then show ?thesis by linarith
    qed
    have low: "0 \<le> max (1 / 10) (7 / 10 - (mn - t) / 50)"
      by (simp add: max_def)
    from Some band mm over low show ?thesis
      by (simp add: scorePriceMatch_def)
  qed
qed

lemma scoreReviewCount_range: "0 \<le> scoreReviewCount v \<and> scoreReviewCount v \<le> 1"
  by (simp add: scoreReviewCount_def split: option.splits)

lemma scoreVenue_Inr:
  assumes "scoreVenue prefs t r v = Inr sv"
  shows "venue sv = v"
    and "ratingScore (scores sv) = scoreRating v"
    and "proximityScore (scores sv) = scoreProximity v r"
    and "priceMatchScore (scores sv) = scorePriceMatch v t"
    and "scorePreferenceMatch v prefs = Inr (preferenceMatchScore (scores sv))"
    and "reviewCountScore (scores sv) = scoreReviewCount v"
    and "score sv = ratingScore (scores sv) * (30 / 100) + proximityScore (scores sv) * (25 / 100)
           + priceMatchScore (scores sv) * (20 / 100) + preferenceMatchScore (scores sv) * (15 / 100)
           + reviewCountScore (scores sv) * (10 / 100)"
  using assms by (auto simp: scoreVenue_def Let_def split: sum.splits)

lemma mapE_Inr:
  "mapE f xs = Inr ys \<Longrightarrow> list_all2 (\<lambda>x y. f x = Inr y) xs ys"
proof (induction xs arbitrary: ys)
  case Nil
  then show ?case by simp
next
  case (Cons x xs)
  then show ?case by (auto split: sum.splits)
qed

lemma mapE_total:
  "(\<And>x. x \<in> set xs \<Longrightarrow> \<exists>y. f x = Inr y) \<Longrightarrow> \<exists>ys. mapE f xs = Inr ys"
proof (induction xs)
  case Nil
  show ?case by simp
next
  case (Cons x xs)
  then obtain y where "f x = Inr y" by (meson list.set_intros(1))
  moreover from Cons obtain ys where "mapE f xs = Inr ys" by (meson list.set_intros(2))
  ultimately show ?case by simp
qed

lemma rankVenues_Inr:
  assumes "rankVenues venues prefs t refLoc = Inr ranked"
  obtains scored where
    "mapE (scoreVenue prefs t (case refLoc of Some l \<Rightarrow> l | None \<Rightarrow> calculateCentroid venues)) venues
       = Inr scored"
    and "ranked = sortByScore scored"
  using assms by (auto simp: rankVenues_def Let_def split: sum.splits)

lemma set_sortByScore: "set (sortByScore xs) = set xs"
  by (simp add: sortByScore_def)

lemma rankVenues_member:
  assumes "rankVenues venues prefs t refLoc = Inr ranked" and "sv \<in> set ranked"
  shows "\<exists>v \<in> set venues.
           scoreVenue prefs t (case refLoc of Some l \<Rightarrow> l | None \<Rightarrow> calculateCentroid venues) v = Inr sv"
proof -
  from assms(1) obtain scored where
    m: "mapE (scoreVenue prefs t (case refLoc of Some l \<Rightarrow> l | None \<Rightarrow> calculateCentroid venues)) venues
       = Inr scored" and r: "ranked = sortByScore scored"
    by (rule rankVenues_Inr)
  from assms(2) r have "sv \<in> set scored" by (simp add: set_sortByScore)
  with mapE_Inr [OF m] show ?thesis
    by (metis (mono_tags, lifting) in_set_conv_nth list_all2_conv_all_nth)
qed

lemma sorted_sortByScore: "sorted_wrt (\<lambda>a b. score b \<le> score a) (sortByScore xs)"
proof -
  have "sorted (map (\<lambda>sv. - score sv) (sortByScore xs))"
    by (simp add: sortByScore_def)
  then show ?thesis
    by (simp add: sorted_map sorted_wrt_iff_nth_less)
qed

lemma stable_sortByScore:
  "filter (\<lambda>sv. score sv = k) (sortByScore xs) = filter (\<lambda>sv. score sv = k) xs"
proof -
  have "filter (\<lambda>sv. - score sv = - k) (sort_key (\<lambda>sv. - score sv) xs)
        = filter (\<lambda>sv. - score sv = - k) xs"
    by (rule sort_key_stable)
  then show ?thesis by (simp add: sortByScore_def)
qed


lemmas example_defs =
  exampleVenueA_def exampleVenueB_def examplePrefs_def exampleScoredA_def exampleScoredB_def

lemmas scoring_defs =
  scoreVenue_def scorePreferenceMatch_def toLowerCase_def toLowerChar_def getProperty_def
  vibeKeywords_def objectPrototypeKeys_def scoreRating_def scoreProximity_def
  calculateDistance_def atan2_def scorePriceMatch_def PRICE_LEVEL_EUR_def scoreReviewCount_def

lemma example_preference: "scorePreferenceMatch exampleVenueA examplePrefs = Inr (17 / 20)"
  by (simp add: example_defs scoring_defs)

lemma example_scoreVenueA:
  "scoreVenue examplePrefs 30 \<lparr>lat = 0, lng = 0\<rparr> exampleVenueA = Inr exampleScoredA"
  by (simp add: example_defs scoring_defs)

lemma example_scoreVenueB:
  "scoreVenue examplePrefs 30 \<lparr>lat = 0, lng = 0\<rparr> exampleVenueB = Inr exampleScoredB"
  by (simp add: example_defs scoring_defs)

lemma example_centroid: "calculateCentroid [exampleVenueB, exampleVenueA] = \<lparr>lat = 0, lng = 0\<rparr>"
  by (simp add: calculateCentroid_def example_defs)

lemma example_scores: "score exampleScoredA = 391 / 400" "score exampleScoredB = 53 / 100"
  by (simp_all add: example_defs)

lemma example_ranking:
  "rankVenues [exampleVenueB, exampleVenueA] examplePrefs 30 None
     = Inr [exampleScoredA, exampleScoredB]"
  by (simp add: rankVenues_def example_centroid example_scoreVenueA example_scoreVenueB
      sortByScore_def example_scores)

text \<open>
  C3. Whenever \<open>rankVenues\<close> returns a ranking, each of the five component scores of every
  ranked venue lies between 0 and 1, the composite score is the weighted sum of the
  components with the weights 0.30, 0.25, 0.20, 0.15 and 0.10, and the composite score lies
  between 0 and 1 as well.
\<close>

theorem rankVenues_scores_in_unit_interval:
  assumes "rankVenues venues prefs t refLoc = Inr ranked" and "sv \<in> set ranked"
  shows "0 \<le> ratingScore (scores sv) \<and> ratingScore (scores sv) \<le> 1
       \<and> 0 \<le> proximityScore (scores sv) \<and> proximityScore (scores sv) \<le> 1
       \<and> 0 \<le> priceMatchScore (scores sv) \<and> priceMatchScore (scores sv) \<le> 1
       \<and> 0 \<le> preferenceMatchScore (scores sv) \<and> preferenceMatchScore (scores sv) \<le> 1
       \<and> 0 \<le> reviewCountScore (scores sv) \<and> reviewCountScore (scores sv) \<le> 1
       \<and> score sv = 30 / 100 * ratingScore (scores sv) + 25 / 100 * proximityScore (scores sv)
                   + 20 / 100 * priceMatchScore (scores sv)
                   + 15 / 100 * preferenceMatchScore (scores sv)
                   + 10 / 100 * reviewCountScore (scores sv)
       \<and> 0 \<le> score sv \<and> score sv \<le> 1"
proof -
  from rankVenues_member [OF assms] obtain v r where sv: "scoreVenue prefs t r v = Inr sv"
    by blast
  note f = scoreVenue_Inr [OF sv]
  have a: "0 \<le> ratingScore (scores sv) \<and> ratingScore (scores sv) \<le> 1"
    using scoreRating_range [of v] f(2) by simp
  have b: "0 \<le> proximityScore (scores sv) \<and> proximityScore (scores sv) \<le> 1"
    using scoreProximity_range [of v r] f(3) by simp
  have c: "0 \<le> priceMatchScore (scores sv) \<and> priceMatchScore (scores sv) \<le> 1"
    using scorePriceMatch_range [of v t] f(4) by simp
  have d: "0 \<le> preferenceMatchScore (scores sv) \<and> preferenceMatchScore (scores sv) \<le> 1"
    using scorePreferenceMatch_range [OF f(5)] by simp
  have e: "0 \<le> reviewCountScore (scores sv) \<and> reviewCountScore (scores sv) \<le> 1"
    using scoreReviewCount_range [of v] f(6) by simp
  have g: "score sv = 30 / 100 * ratingScore (scores sv) + 25 / 100 * proximityScore (scores sv)
                   + 20 / 100 * priceMatchScore (scores sv)
                   + 15 / 100 * preferenceMatchScore (scores sv)
                   + 10 / 100 * reviewCountScore (scores sv)"
    using f(7) by simp
  have h: "0 \<le> score sv \<and> score sv \<le> 1"
    using a b c d e g by linarith
  show ?thesis using a b c d e g h by blast
qed


theorem rankVenues_scores_in_unit_interval_witness:
  "rankVenues [exampleVenueB, exampleVenueA] examplePrefs 30 None
     = Inr [exampleScoredA, exampleScoredB]
   \<and> exampleScoredB \<in> set [exampleScoredA, exampleScoredB]
   \<and> 0 \<le> preferenceMatchScore (scores exampleScoredB)
   \<and> preferenceMatchScore (scores exampleScoredB) \<le> 1
   \<and> 0 \<le> score exampleScoredB \<and> score exampleScoredB \<le> 1"
proof -
  have m: "exampleScoredB \<in> set [exampleScoredA, exampleScoredB]" by simp
  from rankVenues_scores_in_unit_interval [OF example_ranking m] example_ranking m
  show ?thesis by blast
qed

text \<open>
  C4 (evaluation at the rating 0). A venue whose rating field is present with the value 0
  is scored 0.5, the score of a venue without a rating, where \<open>clamp((0 - 3)/2, 0, 1)\<close>
  is 0.
\<close>

theorem scoreRating_present_zero:
  "scoreRating (exampleVenueA\<lparr>rating := Some 0\<rparr>) = 1 / 2
   \<and> max 0 (min 1 ((0 - 3) / 2)) = (0 :: real)"
  by (simp add: scoreRating_def)

lemma scoreRating_absent: "rating v = None \<Longrightarrow> scoreRating v = 1 / 2"
  by (simp add: scoreRating_def)

lemma scoreRating_present_nonzero:
  "rating v = Some r \<Longrightarrow> r \<noteq> 0 \<Longrightarrow> scoreRating v = max 0 (min 1 ((r - 3) / 2))"
  by (simp add: scoreRating_def)

text \<open>
  C8. The list returned by \<open>rankVenues\<close> is in non-increasing order of composite score, and
  it is a stable rearrangement of the venues scored in input order: for every score value,
  the venues with that score appear in the order they have in the input.
\<close>

theorem rankVenues_sorted_stable:
  assumes "rankVenues venues prefs t refLoc = Inr ranked"
  shows "sorted_wrt (\<lambda>a b. score b \<le> score a) ranked
       \<and> (\<exists>scored. map venue scored = venues \<and> mset ranked = mset scored
            \<and> (\<forall>k. filter (\<lambda>sv. score sv = k) ranked = filter (\<lambda>sv. score sv = k) scored))"
proof -
  from assms obtain scored where
    m: "mapE (scoreVenue prefs t (case refLoc of Some l \<Rightarrow> l | None \<Rightarrow> calculateCentroid venues))
          venues = Inr scored"
    and r: "ranked = sortByScore scored"
    by (rule rankVenues_Inr)
  have "map venue scored = venues"
    using mapE_Inr [OF m] by (induction rule: list_all2_induct) (auto dest: scoreVenue_Inr(1))
  moreover have "mset ranked = mset scored"
    using r by (simp add: sortByScore_def)
  moreover have "\<forall>k. filter (\<lambda>sv. score sv = k) ranked = filter (\<lambda>sv. score sv = k) scored"
    using r by (simp add: stable_sortByScore)
  moreover have "sorted_wrt (\<lambda>a b. score b \<le> score a) ranked"
    using r by (simp add: sorted_sortByScore)
  ultimately show ?thesis by blast
qed

theorem rankVenues_sorted_stable_witness:
  "rankVenues [exampleVenueB, exampleVenueA] examplePrefs 30 None
     = Inr [exampleScoredA, exampleScoredB]
   \<and> sorted_wrt (\<lambda>a b. score b \<le> score a) [exampleScoredA, exampleScoredB]"
  using rankVenues_sorted_stable [OF example_ranking] example_ranking by blast

text \<open>
  C10. Whenever \<open>scorePreferenceMatch\<close> returns a score, the score is at least 0.5: the
  like and vibe matches only add to the base 0.5 before the cap at 1.
\<close>

theorem scorePreferenceMatch_at_least_half:
  assumes "scorePreferenceMatch v prefs = Inr s"
  shows "1 / 2 \<le> s"
  using scorePreferenceMatch_range [OF assms] by simp

theorem scorePreferenceMatch_at_least_half_witness:
  "scorePreferenceMatch exampleVenueA examplePrefs = Inr (17 / 20) \<and> (1 / 2 :: real) \<le> 17 / 20"
  using scorePreferenceMatch_at_least_half [OF example_preference] example_preference by simp

section \<open>Properties of the proximity clusterer\<close>

lemma absorbNearby_added:
  assumes "absorbNearby maxD seed others (cluster, assigned) = (cluster', assigned')"
  shows "\<exists>added. cluster' = cluster @ added \<and> set added \<subseteq> set others
           \<and> assigned' = assigned \<union> placeId ` set added
           \<and> distinct (map placeId added) \<and> placeId ` set added \<inter> assigned = {}"
  using assms
proof (induction others arbitrary: cluster assigned)
  case Nil
  then show ?case by simp
next
  case (Cons other rest)
  show ?case
  proof (cases "placeId other \<notin> assigned
                \<and> calculateDistance (location seed) (location other) \<le> maxD")
    case True
    with Cons.prems have
      "absorbNearby maxD seed rest (cluster @ [other], insert (placeId other) assigned)
         = (cluster', assigned')" by simp
    from Cons.IH [OF this] obtain added where a:
      "cluster' = (cluster @ [other]) @ added" "set added \<subseteq> set rest"
      "assigned' = insert (placeId other) assigned \<union> placeId ` set added"
      "distinct (map placeId added)"
      "placeId ` set added \<inter> insert (placeId other) assigned = {}"
      by blast
    let ?added = "other # added"
    have "cluster' = cluster @ ?added" using a(1) by simp
    moreover have "set ?added \<subseteq> set (other # rest)" using a(2) by auto
    moreover have "assigned' = assigned \<union> placeId ` set ?added" using a(3) by auto
    moreover have "distinct (map placeId ?added)" using a(4,5) by auto
    moreover have "placeId ` set ?added \<inter> assigned = {}" using a(5) True by auto
    ultimately show ?thesis by blast
  next
    case False
    with Cons.prems have "absorbNearby maxD seed rest (cluster, assigned) = (cluster', assigned')"
      by (auto split: if_splits)
    from Cons.IH [OF this] obtain added where a:
      "cluster' = cluster @ added" "set added \<subseteq> set rest"
      "assigned' = assigned \<union> placeId ` set added"
      "distinct (map placeId added)" "placeId ` set added \<inter> assigned = {}"
      by blast
    have "set added \<subseteq> set (other # rest)" using a(2) by auto
    with a show ?thesis by blast
  qed
qed

lemma clusterLoop_inv:
  assumes "clusterInv venues (clusters, assigned)" and "set todo \<subseteq> set venues"
    and "clusterLoop maxD venues todo (clusters, assigned) = (clusters', assigned')"
  shows "clusterInv venues (clusters', assigned') \<and> placeId ` set todo \<subseteq> assigned'
         \<and> assigned \<subseteq> assigned'"
  using assms
proof (induction todo arbitrary: clusters assigned)
  case Nil
  then show ?case by simp
next
  case (Cons v rest)
  show ?case
  proof (cases "placeId v \<in> assigned")
    case True
    with Cons.prems have "clusterLoop maxD venues rest (clusters, assigned) = (clusters', assigned')"
      by simp
    from Cons.IH [OF Cons.prems(1) _ this] Cons.prems(2) True show ?thesis by auto
  next
    case False
    obtain cluster assigned1 where
      ab: "absorbNearby maxD v venues ([v], insert (placeId v) assigned) = (cluster, assigned1)"
      by (cases "absorbNearby maxD v venues ([v], insert (placeId v) assigned)")
    with False Cons.prems have
      loop: "clusterLoop maxD venues rest (clusters @ [cluster], assigned1) = (clusters', assigned')"
      by simp
    from absorbNearby_added [OF ab] obtain added where a:
      "cluster = [v] @ added" "set added \<subseteq> set venues"
      "assigned1 = insert (placeId v) assigned \<union> placeId ` set added"
      "distinct (map placeId added)"
      "placeId ` set added \<inter> insert (placeId v) assigned = {}"
      by blast
    from Cons.prems(1) have inv:
      "assigned = placeId ` set (concat clusters)" "set (concat clusters) \<subseteq> set venues"
      "distinct (map placeId (concat clusters))" "[] \<notin> set clusters"
      by (simp_all add: clusterInv_def)
    have v: "v \<in> set venues" using Cons.prems(2) by simp
    have d1: "distinct (map placeId cluster)" using a(1,4,5) by auto
    have d2: "placeId ` set cluster \<inter> placeId ` set (concat clusters) = {}"
      using a(1,5) False inv(1) by auto
    have d3: "distinct (map placeId (concat clusters) @ map placeId cluster)"
      unfolding distinct_append set_map using inv(3) d1 d2 by (simp add: Int_commute)
    have s1: "assigned1 = placeId ` (set (concat clusters) \<union> set cluster)"
      using a(1,3) inv(1) by auto
    have s2: "set (concat clusters) \<union> set cluster \<subseteq> set venues"
      using a(1,2) inv(2) v by auto
    have s3: "cluster \<noteq> []" using a(1) by simp
    have "clusterInv venues (clusters @ [cluster], assigned1)"
      unfolding clusterInv_def using s1 s2 s3 d3 inv(4) by (simp add: Un_commute)
    from Cons.IH [OF this _ loop] Cons.prems(2) a(3) show ?thesis by auto
  qed
qed

lemma clusterLoop_partition:
  assumes "inj_on placeId (set venues)"
    and "clusterLoop maxD venues venues ([], {}) = (clusters, assigned)"
  shows "set (concat clusters) = set venues \<and> distinct (concat clusters) \<and> [] \<notin> set clusters"
proof -
  have "clusterInv venues ([], {})" by (simp add: clusterInv_def)
  from clusterLoop_inv [OF this _ assms(2)] have
    I: "clusterInv venues (clusters, assigned)" and all: "placeId ` set venues \<subseteq> assigned"
    by simp_all
  from I have inv:
    "assigned = placeId ` set (concat clusters)" "set (concat clusters) \<subseteq> set venues"
    "distinct (map placeId (concat clusters))" "[] \<notin> set clusters"
    by (simp_all add: clusterInv_def)
  have "set venues \<subseteq> set (concat clusters)"
  proof
    fix v assume v: "v \<in> set venues"
    with all inv(1) obtain w where w: "w \<in> set (concat clusters)" "placeId v = placeId w"
      by blast
    with inv(2) have "w \<in> set venues" by blast
    with assms(1) v w(2) have "v = w" by (auto dest: inj_onD)
    with w(1) show "v \<in> set (concat clusters)" by simp
  qed
  with inv(2) have "set (concat clusters) = set venues" by blast
  moreover have "distinct (concat clusters)" using inv(3) by (simp add: distinct_map)
  ultimately show ?thesis using inv(4) by blast
qed

lemma mset_concat_perm:
  assumes "mset xss = mset yss"
  shows "mset (concat xss) = mset (concat yss)"
proof -
  have "mset (concat xss) = sum_mset (image_mset mset (mset xss))" for xss :: "'a list list"
    by (induction xss) simp_all
  with assms show ?thesis by simp
qed

text \<open>
  C5. For a venue list in which the place id identifies the venue (place ids are unique in
  the data model) and any radius, the clusters returned by \<open>clusterByProximity\<close> partition
  the input: the venues occurring in the clusters are exactly the input venues, no venue
  occurs twice, within a cluster or across clusters, and no cluster is empty.
\<close>

theorem clusterByProximity_partition:
  assumes "inj_on placeId (set venues)"
  shows "set (concat (clusterByProximity venues radius)) = set venues
       \<and> distinct (concat (clusterByProximity venues radius))
       \<and> [] \<notin> set (clusterByProximity venues radius)"
proof (cases "venues = []")
  case True
  then show ?thesis by (simp add: clusterByProximity_def)
next
  case False
  define maxD where "maxD = (case radius of Some d \<Rightarrow> d | None \<Rightarrow> 1500)"
  obtain clusters assigned where
    loop: "clusterLoop maxD venues venues ([], {}) = (clusters, assigned)"
    by (cases "clusterLoop maxD venues venues ([], {})")
  have res: "clusterByProximity venues radius = sort_key (\<lambda>c. - int (length c)) clusters"
    using False loop by (simp add: clusterByProximity_def maxD_def)
  note p = clusterLoop_partition [OF assms loop]
  have m: "mset (concat (sort_key (\<lambda>c. - int (length c)) clusters)) = mset (concat clusters)"
    by (rule mset_concat_perm) simp
  have "set (concat (sort_key (\<lambda>c. - int (length c)) clusters)) = set venues"
    using mset_eq_setD [OF m] p by simp
  moreover have "distinct (concat (sort_key (\<lambda>c. - int (length c)) clusters))"
    using mset_eq_imp_distinct_iff [OF m] p by simp
  moreover have "[] \<notin> set (sort_key (\<lambda>c. - int (length c)) clusters)"
    using p by simp
  ultimately show ?thesis unfolding res by blast
qed

lemma example_clusters:
  "clusterByProximity [exampleVenueA, exampleVenueB] None = [[exampleVenueA, exampleVenueB]]"
  by (simp add: clusterByProximity_def exampleVenueA_def exampleVenueB_def
      calculateDistance_def atan2_def)

lemma example_inj: "inj_on placeId (set [exampleVenueA, exampleVenueB])"
  by (simp add: exampleVenueA_def exampleVenueB_def)

theorem clusterByProximity_partition_witness:
  "inj_on placeId (set [exampleVenueA, exampleVenueB])
   \<and> clusterByProximity [exampleVenueA, exampleVenueB] None = [[exampleVenueA, exampleVenueB]]
   \<and> set (concat (clusterByProximity [exampleVenueA, exampleVenueB] None))
       = set [exampleVenueA, exampleVenueB]
   \<and> distinct (concat (clusterByProximity [exampleVenueA, exampleVenueB] None))"
  using clusterByProximity_partition [OF example_inj, of None] example_inj example_clusters
  by blast

section \<open>Properties of the finalist selector\<close>

lemma scoreVenue_reference:
  assumes "scoreVenue prefs t r1 v = Inr sv"
  shows "\<exists>sv'. scoreVenue prefs t r2 v = Inr sv'"
  using assms by (auto simp: scoreVenue_def Let_def split: sum.splits)

lemma mapE_venues:
  assumes "mapE (scoreVenue prefs t r) venues = Inr scored"
  shows "map venue scored = venues"
  using mapE_Inr [OF assms]
  by (induction rule: list_all2_induct) (auto dest: scoreVenue_Inr(1))

lemma rankVenues_venues:
  assumes "rankVenues venues prefs t refLoc = Inr ranked"
  shows "mset (map venue ranked) = mset venues"
proof -
  from assms obtain scored where
    m: "mapE (scoreVenue prefs t (case refLoc of Some l \<Rightarrow> l | None \<Rightarrow> calculateCentroid venues))
          venues = Inr scored"
    and r: "ranked = sortByScore scored"
    by (rule rankVenues_Inr)
  have "mset (map venue ranked) = mset (map venue scored)"
    using r by (simp add: sortByScore_def)
  with mapE_venues [OF m] show ?thesis by simp
qed

lemma rankVenues_length:
  assumes "rankVenues venues prefs t refLoc = Inr ranked"
  shows "length ranked = length venues"
  using rankVenues_venues [OF assms] by (metis length_map size_mset)

lemma rankVenues_reference:
  assumes "rankVenues venues prefs t r1 = Inr ranked"
  shows "\<exists>ranked'. rankVenues venues prefs t r2 = Inr ranked'"
proof -
  from assms obtain scored where
    m: "mapE (scoreVenue prefs t (case r1 of Some l \<Rightarrow> l | None \<Rightarrow> calculateCentroid venues))
          venues = Inr scored"
    by (rule rankVenues_Inr)
  have ex: "\<exists>y. scoreVenue prefs t (case r2 of Some l \<Rightarrow> l | None \<Rightarrow> calculateCentroid venues) v = Inr y"
    if "v \<in> set venues" for v
  proof -
    from mapE_Inr [OF m] that obtain sv where
      "scoreVenue prefs t (case r1 of Some l \<Rightarrow> l | None \<Rightarrow> calculateCentroid venues) v = Inr sv"
      by (metis (mono_tags, lifting) in_set_conv_nth list_all2_conv_all_nth)
    then show ?thesis by (rule scoreVenue_reference)
  qed
  have "\<exists>ys. mapE (scoreVenue prefs t (case r2 of Some l \<Rightarrow> l | None \<Rightarrow> calculateCentroid venues))
          venues = Inr ys"
    by (rule mapE_total) (rule ex)
  then obtain ys where
    "mapE (scoreVenue prefs t (case r2 of Some l \<Rightarrow> l | None \<Rightarrow> calculateCentroid venues)) venues
       = Inr ys" by blast
  then show ?thesis by (simp add: rankVenues_def)
qed

lemma pick_nonempty:
  assumes "ranked \<noteq> []"
  shows "selected (pick c n ranked sel) c = Some (venue (ranked ! 0))"
    and "backups (pick c n ranked sel) c = Some (map venue (take n (drop 1 ranked)))"
    and "c' \<noteq> c \<Longrightarrow> selected (pick c n ranked sel) c' = selected sel c'"
    and "c' \<noteq> c \<Longrightarrow> backups (pick c n ranked sel) c' = backups sel c'"
  using assms by (cases ranked; simp add: pick_def)+

lemma rerank_result:
  assumes first: "rankVenues pool prefs t None = Inr ranked"
    and ne: "pool \<noteq> []"
    and rr: "rerank c pool prefs t loc ranked sel = Inr sel'"
    and s: "selected sel c = Some (venue (ranked ! 0))"
    and b: "backups sel c = Some (map venue (take 2 (drop 1 ranked)))"
  shows "\<exists>again. rankVenues pool prefs t (Some loc) = Inr again \<and> again \<noteq> []
           \<and> selected sel' c = Some (venue (again ! 0))
           \<and> backups sel' c = Some (map venue (take 2 (drop 1 again)))
           \<and> (\<forall>c'. c' \<noteq> c \<longrightarrow> selected sel' c' = selected sel c' \<and> backups sel' c' = backups sel c')"
proof -
  from rankVenues_reference [OF first] obtain again where
    again: "rankVenues pool prefs t (Some loc) = Inr again" by blast
  have len: "length again = length pool" "length ranked = length pool"
    using rankVenues_length [OF again] rankVenues_length [OF first] by simp_all
  with ne have ane: "again \<noteq> []" by auto
  show ?thesis
  proof (cases "length ranked > 1")
    case True
    with rr again have "sel' = pick c 2 again sel" by (simp add: rerank_def)
    with pick_nonempty [OF ane] again ane show ?thesis by simp
  next
    case False
    with rr have same: "sel' = sel" by (simp add: rerank_def)
    from False len ne have l1: "length pool = 1" by (cases pool) auto
    then obtain v where pool: "pool = [v]" by (cases pool) auto
    have sing: "xs = [v]" if "mset xs = mset [v]" for xs :: "venue list"
      using that by simp
    have "map venue again = [v]"
      by (rule sing) (rule rankVenues_venues [OF again, unfolded pool])
    moreover have "map venue ranked = [v]"
      by (rule sing) (rule rankVenues_venues [OF first, unfolded pool])
    ultimately have "venue (again ! 0) = venue (ranked ! 0)"
      and "map venue (take 2 (drop 1 again)) = map venue (take 2 (drop 1 ranked))"
      by (auto simp: map_eq_Cons_conv)
    with same s b again ane show ?thesis by simp
  qed
qed

text \<open>
  C1. For non-empty activity, dinner and finish pools, every selection \<open>selectBestVenues\<close>
  returns has as dinner pick the rank-1 venue of the dinner pool's ranking and as dinner
  backups ranks 2 to 4 of it (\<open>take 3 (drop 1 ...)\<close>); and its activity and finish picks are
  rank 1, with backups ranks 2 to 3, of those pools re-ranked with the dinner pick's location
  as the reference location.
\<close>

theorem selectBestVenues_picks:
  assumes pools: "activity pools \<noteq> []" "dinner pools \<noteq> []" "finish pools \<noteq> []"
    and res: "selectBestVenues pools prefs budgetPerCategory = Inr sel"
  shows "\<exists>rankedDinner rerankedActivity rerankedFinish.
           rankVenues (dinner pools) prefs (dinner budgetPerCategory) None = Inr rankedDinner
         \<and> rankedDinner \<noteq> []
         \<and> selected sel ''dinner'' = Some (venue (rankedDinner ! 0))
         \<and> backups sel ''dinner'' = Some (map venue (take 3 (drop 1 rankedDinner)))
         \<and> rankVenues (activity pools) prefs (activity budgetPerCategory)
              (Some (location (venue (rankedDinner ! 0)))) = Inr rerankedActivity
         \<and> rerankedActivity \<noteq> []
         \<and> selected sel ''activity'' = Some (venue (rerankedActivity ! 0))
         \<and> backups sel ''activity'' = Some (map venue (take 2 (drop 1 rerankedActivity)))
         \<and> rankVenues (finish pools) prefs (finish budgetPerCategory)
              (Some (location (venue (rankedDinner ! 0)))) = Inr rerankedFinish
         \<and> rerankedFinish \<noteq> []
         \<and> selected sel ''finish'' = Some (venue (rerankedFinish ! 0))
         \<and> backups sel ''finish'' = Some (map venue (take 2 (drop 1 rerankedFinish)))"
proof -
  from res obtain ra rd rf where
    ra: "rankVenues (activity pools) prefs (activity budgetPerCategory) None = Inr ra"
    and rd: "rankVenues (dinner pools) prefs (dinner budgetPerCategory) None = Inr rd"
    and rf: "rankVenues (finish pools) prefs (finish budgetPerCategory) None = Inr rf"
    by (auto simp: selectBestVenues_def split: sum.splits)
  have ne: "ra \<noteq> []" "rd \<noteq> []" "rf \<noteq> []"
    using rankVenues_length [OF ra] rankVenues_length [OF rd] rankVenues_length [OF rf] pools
    by auto
  define sel0 where "sel0 = \<lparr>selected = Map.empty,
     backups = [''activity'' \<mapsto> [], ''dinner'' \<mapsto> [], ''finish'' \<mapsto> ([] :: venue list)]\<rparr>"
  define sel1 where "sel1 = pick ''activity'' 2 ra sel0"
  define sel2 where "sel2 = pick ''dinner'' 3 rd sel1"
  define sel3 where "sel3 = pick ''finish'' 2 rf sel2"
  have a3: "selected sel3 ''activity'' = Some (venue (ra ! 0))"
       "backups sel3 ''activity'' = Some (map venue (take 2 (drop 1 ra)))"
    unfolding sel3_def sel2_def sel1_def
    by (simp_all add: pick_nonempty [OF ne(1)] pick_nonempty [OF ne(2)] pick_nonempty [OF ne(3)])
  have d3: "selected sel3 ''dinner'' = Some (venue (rd ! 0))"
       "backups sel3 ''dinner'' = Some (map venue (take 3 (drop 1 rd)))"
    unfolding sel3_def sel2_def sel1_def
    by (simp_all add: pick_nonempty [OF ne(1)] pick_nonempty [OF ne(2)] pick_nonempty [OF ne(3)])
  have f3: "selected sel3 ''finish'' = Some (venue (rf ! 0))"
       "backups sel3 ''finish'' = Some (map venue (take 2 (drop 1 rf)))"
    unfolding sel3_def sel2_def sel1_def
    by (simp_all add: pick_nonempty [OF ne(1)] pick_nonempty [OF ne(2)] pick_nonempty [OF ne(3)])
  let ?loc = "location (venue (rd ! 0))"
  from res ra rd rf d3(1) obtain sel4 where
    r1: "rerank ''activity'' (activity pools) prefs (activity budgetPerCategory) ?loc ra sel3
           = Inr sel4"
    and r2: "rerank ''finish'' (finish pools) prefs (finish budgetPerCategory) ?loc rf sel4
           = Inr sel"
    by (auto simp: selectBestVenues_def Let_def sel0_def sel1_def sel2_def sel3_def
        split: sum.splits)
  from rerank_result [OF ra pools(1) r1 a3] obtain aa where aa:
    "rankVenues (activity pools) prefs (activity budgetPerCategory) (Some ?loc) = Inr aa"
    "aa \<noteq> []" "selected sel4 ''activity'' = Some (venue (aa ! 0))"
    "backups sel4 ''activity'' = Some (map venue (take 2 (drop 1 aa)))"
    "\<forall>c'. c' \<noteq> ''activity'' \<longrightarrow> selected sel4 c' = selected sel3 c' \<and> backups sel4 c' = backups sel3 c'"
    by blast
  have f4: "selected sel4 ''finish'' = Some (venue (rf ! 0))"
       "backups sel4 ''finish'' = Some (map venue (take 2 (drop 1 rf)))"
    using aa(5) f3 by simp_all
  have d4: "selected sel4 ''dinner'' = Some (venue (rd ! 0))"
       "backups sel4 ''dinner'' = Some (map venue (take 3 (drop 1 rd)))"
    using aa(5) d3 by simp_all
  from rerank_result [OF rf pools(3) r2 f4] obtain ff where ff:
    "rankVenues (finish pools) prefs (finish budgetPerCategory) (Some ?loc) = Inr ff"
    "ff \<noteq> []" "selected sel ''finish'' = Some (venue (ff ! 0))"
    "backups sel ''finish'' = Some (map venue (take 2 (drop 1 ff)))"
    "\<forall>c'. c' \<noteq> ''finish'' \<longrightarrow> selected sel c' = selected sel4 c' \<and> backups sel c' = backups sel4 c'"
    by blast
  have "selected sel ''dinner'' = Some (venue (rd ! 0))"
       "backups sel ''dinner'' = Some (map venue (take 3 (drop 1 rd)))"
       "selected sel ''activity'' = Some (venue (aa ! 0))"
       "backups sel ''activity'' = Some (map venue (take 2 (drop 1 aa)))"
    using ff(5) d4 aa(3,4) by simp_all
  with rd ne(2) aa(1,2) ff(1-4) show ?thesis by blast
qed

lemma example_centroid_single: "calculateCentroid [exampleVenueA] = \<lparr>lat = 0, lng = 0\<rparr>"
  by (simp add: calculateCentroid_def exampleVenueA_def)

lemma example_ranking_single:
  "rankVenues [exampleVenueA] examplePrefs 30 None = Inr [exampleScoredA]"
  by (simp add: rankVenues_def example_centroid_single example_scoreVenueA sortByScore_def)

lemma example_reranking:
  "rankVenues [exampleVenueB, exampleVenueA] examplePrefs 30 (Some \<lparr>lat = 0, lng = 0\<rparr>)
     = Inr [exampleScoredA, exampleScoredB]"
  by (simp add: rankVenues_def example_scoreVenueA example_scoreVenueB
      sortByScore_def example_scores)

lemma pick_Cons:
  "pick c n (s # ss) sel = \<lparr>selected = (selected sel)(c \<mapsto> venue s),
                            backups = (backups sel)(c \<mapsto> map venue (take n ss))\<rparr>"
  by (simp add: pick_def)

lemma example_selection_returns:
  "\<exists>sel. selectBestVenues examplePools examplePrefs exampleBudgets = Inr sel"
proof -
  have v: "venue exampleScoredA = exampleVenueA" by (simp add: exampleScoredA_def)
  have loc: "location exampleVenueA = \<lparr>lat = 0, lng = 0\<rparr>" by (simp add: exampleVenueA_def)
  have ra: "rerank ''activity'' [exampleVenueB, exampleVenueA] examplePrefs 30
              \<lparr>lat = 0, lng = 0\<rparr> [exampleScoredA, exampleScoredB] sel
            = Inr (pick ''activity'' 2 [exampleScoredA, exampleScoredB] sel)" for sel
    by (simp add: rerank_def example_reranking)
  have rf: "rerank ''finish'' [exampleVenueA] examplePrefs 30 \<lparr>lat = 0, lng = 0\<rparr>
              [exampleScoredA] sel = Inr sel" for sel
    by (simp add: rerank_def)
  show ?thesis
    by (simp add: selectBestVenues_def examplePools_def exampleBudgets_def example_ranking
        example_ranking_single pick_Cons v loc ra rf)
qed

theorem selectBestVenues_picks_witness:
  "activity examplePools \<noteq> [] \<and> dinner examplePools \<noteq> [] \<and> finish examplePools \<noteq> []
   \<and> map_sum id (\<lambda>sel. (selected sel ''dinner'', backups sel ''dinner''))
        (selectBestVenues examplePools examplePrefs exampleBudgets)
      = Inr (Some exampleVenueA, Some [exampleVenueB])"
proof -
  have ne: "activity examplePools \<noteq> []" "dinner examplePools \<noteq> []" "finish examplePools \<noteq> []"
    by (simp_all add: examplePools_def)
  from example_selection_returns obtain sel where
    sel: "selectBestVenues examplePools examplePrefs exampleBudgets = Inr sel" by blast
  from selectBestVenues_picks [OF ne sel] obtain rankedDinner where
    "rankVenues (dinner examplePools) examplePrefs (dinner exampleBudgets) None = Inr rankedDinner"
    "selected sel ''dinner'' = Some (venue (rankedDinner ! 0))"
    "backups sel ''dinner'' = Some (map venue (take 3 (drop 1 rankedDinner)))"
    by blast
  then have "selected sel ''dinner'' = Some exampleVenueA"
    "backups sel ''dinner'' = Some [exampleVenueB]"
    by (auto simp: examplePools_def exampleBudgets_def example_ranking exampleScoredA_def
        exampleScoredB_def)
  with ne sel show ?thesis by simp
qed

section \<open>Properties of the skeleton builder\<close>

lemma isDigit_cases: "isDigit c \<Longrightarrow> c \<in> set ''0123456789''"
  by (simp add: isDigit_def digitValue_def split: if_splits)

lemma isDigit_value: "isDigit c \<Longrightarrow> digitValue c = Some (digitOf c)"
  by (auto simp: isDigit_def digitOf_def)

lemma isDigit_no_space: "isDigit c \<Longrightarrow> \<not> isWhiteSpace c"
  by (drule isDigit_cases) (auto simp: isWhiteSpace_def)

lemma isDigit_no_sign: "isDigit c \<Longrightarrow> c \<noteq> CHR ''-'' \<and> c \<noteq> CHR ''+'' \<and> c \<noteq> CHR '':''"
  by (drule isDigit_cases) auto

lemma parseInt10_two_digits:
  assumes "isDigit a" and "isDigit b"
  shows "parseInt10 [a, b] = Some (int (10 * digitOf a + digitOf b))"
  using assms isDigit_no_space [OF assms(1)] isDigit_no_sign [OF assms(1)]
  by (simp add: parseInt10_def isDigit_value decimalValue_def)

lemma splitOn_clock:
  assumes "a \<noteq> CHR '':''" "b \<noteq> CHR '':''" "c \<noteq> CHR '':''" "d \<noteq> CHR '':''"
  shows "splitOn CHR '':'' [a, b, CHR '':'', c, d] = [[a, b], [c, d]]"
  using assms by simp

lemma wellFormedTime_shape:
  assumes "wellFormedTime t"
  obtains a b c d where "t = [a, b, CHR '':'', c, d]"
    and "isDigit a" "isDigit b" "isDigit c" "isDigit d"
    and "clockHours t = 10 * digitOf a + digitOf b"
    and "clockMinutes t = 10 * digitOf c + digitOf d"
proof -
  from assms have "length t = 5" by (simp add: wellFormedTime_def)
  then obtain a b x c d where t: "t = [a, b, x, c, d]"
    by (auto simp: length_Suc_conv eval_nat_numeral)
  with assms have "x = CHR '':''" "isDigit a" "isDigit b" "isDigit c" "isDigit d"
    by (simp_all add: wellFormedTime_def)
  moreover from t have "clockHours t = 10 * digitOf a + digitOf b"
    "clockMinutes t = 10 * digitOf c + digitOf d"
    by (simp_all add: clockHours_def clockMinutes_def)
  ultimately show ?thesis using t that by blast
qed

lemma parseTime_wellFormed:
  assumes "wellFormedTime t"
  shows "parseTime t = Some (minutesOfDay t)"
proof -
  from assms obtain a b c d where t: "t = [a, b, CHR '':'', c, d]"
    and dg: "isDigit a" "isDigit b" "isDigit c" "isDigit d"
    and h: "clockHours t = 10 * digitOf a + digitOf b"
    and m: "clockMinutes t = 10 * digitOf c + digitOf d"
    by (rule wellFormedTime_shape)
  have sp: "splitOn CHR '':'' t = [[a, b], [c, d]]"
    unfolding t using dg isDigit_no_sign by (intro splitOn_clock) blast+
  have hh: "parseInt10 [a, b] = Some (int (clockHours t))"
    using parseInt10_two_digits [OF dg(1,2)] h by simp
  have mm: "parseInt10 [c, d] = Some (int (clockMinutes t))"
    using parseInt10_two_digits [OF dg(3,4)] m by simp
  show ?thesis
    by (simp add: parseTime_def sp hh mm minutesOfDay_def)
qed

lemma minutesOfDay_range:
  assumes "wellFormedTime t"
  shows "0 \<le> minutesOfDay t \<and> minutesOfDay t < 1440"
proof -
  from assms have "clockHours t < 24" "clockMinutes t < 60"
    by (simp_all add: wellFormedTime_def)
  then show ?thesis by (simp add: minutesOfDay_def)
qed

lemma windowMins_range:
  assumes "0 \<le> s" "s < 1440" "0 \<le> e" "e < 1440"
  shows "1 \<le> windowMins s e \<and> windowMins s e \<le> 1440"
  using assms by (simp add: windowMins_def)

lemma windowMins_mod:
  assumes "0 \<le> s" "s < 1440" "0 \<le> e" "e < 1440"
  shows "windowMins s e = (if e = s then 1440 else (e - s) mod 1440)"
proof (cases "e > s")
  case True
  with assms have "(e - s) mod 1440 = e - s" by simp
  with True show ?thesis by (simp add: windowMins_def)
next
  case False
  show ?thesis
  proof (cases "e = s")
    case True
    then show ?thesis by (simp add: windowMins_def)
  next
    case ne: False
    with False assms have r: "0 \<le> e - s + 1440" "e - s + 1440 < 1440" by simp_all
    have "(e - s) mod 1440 = (e - s + 1440) mod 1440" by simp
    also have "\<dots> = e - s + 1440" using r by (rule mod_pos_pos_trivial)
    finally show ?thesis using False ne by (simp add: windowMins_def)
  qed
qed

lemma foldl_plus: "foldl (\<lambda>sum s. sum + f s) a xs = a + sum_list (map f xs)"
  for a :: "'a :: comm_monoid_add"
  by (induction xs arbitrary: a) (simp_all add: add.assoc)

lemma mathRound_error: "\<bar>real_of_int (mathRound x) - x\<bar> \<le> 1 / 2"
  unfolding mathRound_def by linarith

lemma sum_round_error:
  "\<bar>real_of_int (\<Sum>x\<leftarrow>xs. mathRound (f x)) - (\<Sum>x\<leftarrow>xs. f x)\<bar> \<le> real (length xs) / 2"
proof (induction xs)
  case Nil
  show ?case by simp
next
  case (Cons x xs)
  let ?a = "real_of_int (mathRound (f x)) - f x"
  let ?b = "real_of_int (\<Sum>x\<leftarrow>xs. mathRound (f x)) - (\<Sum>x\<leftarrow>xs. f x)"
  have "\<bar>?a\<bar> \<le> 1 / 2" by (rule mathRound_error)
  moreover have "\<bar>?a + ?b\<bar> \<le> \<bar>?a\<bar> + \<bar>?b\<bar>" by (rule abs_triangle_ineq)
  moreover have "real_of_int (\<Sum>y\<leftarrow>x # xs. mathRound (f y)) - (\<Sum>y\<leftarrow>x # xs. f y) = ?a + ?b"
    by simp
  moreover have "real (length (x # xs)) / 2 = 1 / 2 + real (length xs) / 2" by simp
  ultimately show ?case using Cons.IH by linarith
qed

lemma adjustDurations_positive:
  assumes all: "\<forall>x \<in> set sls. durationMins x \<noteq> None"
    and ps: "parseTime startTime = Some s" and pe: "parseTime endTime = Some e"
    and pos: "0 < sum_list (map slotDuration sls)"
  shows "\<exists>adj. adjustDurations sls startTime endTime = Some adj
           \<and> slotShares adj = slotShares sls
           \<and> (\<forall>x \<in> set adj. durationMins x \<noteq> None)
           \<and> \<bar>real_of_int (sum_list (map slotDuration adj)) - real_of_int (windowMins s e)\<bar>
                \<le> real (length adj) / 2"
proof -
  define total where "total = sum_list (map slotDuration sls)"
  define k where "k = real_of_int (windowMins s e) / real_of_int total"
  define adj where "adj = map (\<lambda>slot. slot\<lparr>durationMins :=
      Some (mathRound (real_of_int (case durationMins slot of Some d \<Rightarrow> d | None \<Rightarrow> 60) * k))\<rparr>) sls"
  have tot: "foldl (\<lambda>sum s. sum + (case durationMins s of Some d \<Rightarrow> d | None \<Rightarrow> 0)) 0 sls = total"
    unfolding total_def slotDuration_def [abs_def] by (simp add: foldl_plus)
  have res: "adjustDurations sls startTime endTime = Some adj"
    using pos by (simp add: adjustDurations_def ps pe tot adj_def k_def total_def [symmetric])
  have sh: "slotShares adj = slotShares sls"
    by (simp add: adj_def slotShares_def comp_def)
  have some: "\<forall>x \<in> set adj. durationMins x \<noteq> None"
    by (auto simp: adj_def)
  have "map slotDuration adj = map (\<lambda>x. mathRound (real_of_int (slotDuration x) * k)) sls"
    unfolding adj_def using all by (auto simp: slotDuration_def)
  then have "real_of_int (sum_list (map slotDuration adj))
             = real_of_int (\<Sum>x\<leftarrow>sls. mathRound (real_of_int (slotDuration x) * k))"
    by simp
  moreover have "\<bar>real_of_int (\<Sum>x\<leftarrow>sls. mathRound (real_of_int (slotDuration x) * k))
                  - (\<Sum>x\<leftarrow>sls. real_of_int (slotDuration x) * k)\<bar> \<le> real (length sls) / 2"
    by (rule sum_round_error)
  moreover have "(\<Sum>x\<leftarrow>sls. real_of_int (slotDuration x) * k) = real_of_int (windowMins s e)"
  proof -
    have "(\<Sum>x\<leftarrow>sls. real_of_int (slotDuration x) * k)
          = (\<Sum>x\<leftarrow>sls. real_of_int (slotDuration x)) * k"
      by (simp add: sum_list_mult_const)
    also have "(\<Sum>x\<leftarrow>sls. real_of_int (slotDuration x)) = real_of_int total"
      unfolding total_def by (induction sls) simp_all
    also have "real_of_int total * k = real_of_int (windowMins s e)"
      using pos by (simp add: k_def total_def)
    finally show ?thesis .
  qed
  moreover have "length adj = length sls" by (simp add: adj_def)
  ultimately have "\<bar>real_of_int (sum_list (map slotDuration adj)) - real_of_int (windowMins s e)\<bar>
                \<le> real (length adj) / 2" by simp
  with res sh some show ?thesis by blast
qed

lemma adjustDurations_zero:
  assumes zero: "\<forall>x \<in> set sls. durationMins x = Some 0"
  shows "\<exists>adj. adjustDurations sls startTime endTime = Some adj
           \<and> slotShares adj = slotShares sls
           \<and> (\<forall>x \<in> set adj. durationMins x \<noteq> None)
           \<and> sum_list (map slotDuration adj) = 0"
proof -
  define adj where "adj = map (\<lambda>slot. slot\<lparr>durationMins :=
      Some (mathRound (real_of_int (case durationMins slot of Some d \<Rightarrow> d | None \<Rightarrow> 60) * 1))\<rparr>) sls"
  have "sum_list (map slotDuration sls) = 0"
    using zero by (induction sls) (simp_all add: slotDuration_def)
  then have tot: "foldl (\<lambda>sum s. sum + (case durationMins s of Some d \<Rightarrow> d | None \<Rightarrow> 0)) 0 sls = 0"
    unfolding slotDuration_def [abs_def] by (simp add: foldl_plus)
  have res: "adjustDurations sls startTime endTime = Some adj"
    by (simp add: adjustDurations_def tot adj_def)
  have sh: "slotShares adj = slotShares sls"
    by (simp add: adj_def slotShares_def comp_def)
  have some: "\<forall>x \<in> set adj. durationMins x \<noteq> None"
    by (auto simp: adj_def)
  have "\<forall>x \<in> set adj. slotDuration x = 0"
    using zero by (auto simp: adj_def slotDuration_def mathRound_def)
  then have "sum_list (map slotDuration adj) = 0"
    by (induction adj) simp_all
  with res sh some show ?thesis by blast
qed

lemma assignTimesFrom_shares: "slotShares (assignTimesFrom c sls) = slotShares sls"
  by (induction sls arbitrary: c) (simp_all add: slotShares_def)

lemma assignTimesFrom_durations:
  "map slotDuration (assignTimesFrom c sls) = map slotDuration sls"
  by (induction sls arbitrary: c) (simp_all add: slotDuration_def)

lemma assignTimesFrom_length: "length (assignTimesFrom c sls) = length sls"
  by (induction sls arbitrary: c) simp_all

lemma slotShares_percent: "sum_list (map budgetPercent sls) = sum_list (map snd (slotShares sls))"
  by (simp add: slotShares_def comp_def)

lemma slotShares_length: "length (slotShares sls) = length sls"
  by (simp add: slotShares_def)

text \<open>The template chosen, by the rules in order.\<close>

lemma selectTemplate_wellFormed:
  assumes "wellFormedTime startTime" and "wellFormedTime endTime"
  shows "selectTemplate b startTime endTime =
     (if amount b < 80 then BUDGET_TEMPLATE
      else if amount b > 250 then FANCY_TEMPLATE
      else if minutesOfDay startTime \<ge> 20 * 60 then LATE_START_TEMPLATE
      else if minutesOfDay startTime \<ge> 14 * 60 \<and> minutesOfDay endTime \<le> 18 * 60
           then AFTERNOON_TEMPLATE
      else if windowMins (minutesOfDay startTime) (minutesOfDay endTime) < 180
           then [\<lparr>slotLabel = ''Activity'', slotType = Activity, budgetPercent = 40,
                  timeStart = None,
                  durationMins = Some \<lfloor>real_of_int (windowMins (minutesOfDay startTime)
                                          (minutesOfDay endTime)) * (4 / 10)\<rfloor>\<rparr>,
                 \<lparr>slotLabel = ''Dinner / Drinks'', slotType = Dinner, budgetPercent = 60,
                  timeStart = None,
                  durationMins = Some \<lfloor>real_of_int (windowMins (minutesOfDay startTime)
                                          (minutesOfDay endTime)) * (6 / 10)\<rfloor>\<rparr>]
      else DEFAULT_TEMPLATE)"
  by (simp add: selectTemplate_def parseTime_wellFormed [OF assms(1)]
      parseTime_wellFormed [OF assms(2)])

lemmas template_defs =
  BUDGET_TEMPLATE_def FANCY_TEMPLATE_def LATE_START_TEMPLATE_def AFTERNOON_TEMPLATE_def
  DEFAULT_TEMPLATE_def

text \<open>What the scaling needs to know of the chosen template.\<close>

lemma selectTemplate_facts:
  fixes b :: budget
  assumes "wellFormedTime startTime" and "wellFormedTime endTime"
  defines "tpl \<equiv> selectTemplate b startTime endTime"
    and "w \<equiv> windowMins (minutesOfDay startTime) (minutesOfDay endTime)"
  shows "tpl \<noteq> []"
    and "sum_list (map snd (slotShares tpl)) = 100"
    and "(\<forall>x \<in> set tpl. durationMins x \<noteq> None) \<and> 0 < sum_list (map slotDuration tpl)
         \<or> (\<forall>x \<in> set tpl. durationMins x = Some 0) \<and> w \<le> 1"
proof -
  have wr: "1 \<le> w \<and> w \<le> 1440"
    unfolding w_def using minutesOfDay_range [OF assms(1)] minutesOfDay_range [OF assms(2)]
    by (intro windowMins_range) simp_all
  note sel = selectTemplate_wellFormed [OF assms(1,2), of b, folded w_def tpl_def]
  show "tpl \<noteq> []"
    unfolding sel by (simp add: template_defs)
  show "sum_list (map snd (slotShares tpl)) = 100"
    unfolding sel by (simp add: template_defs slotShares_def)
  have a: "0 \<le> \<lfloor>real_of_int w * (4 / 10)\<rfloor>" using wr by simp
  have b: "0 \<le> \<lfloor>real_of_int w * (6 / 10)\<rfloor>" using wr by simp
  have small: "w \<le> 1" if "\<lfloor>real_of_int w * (6 / 10)\<rfloor> = 0"
  proof -
    from that have "real_of_int w * (6 / 10) < 1" by linarith
    then have "real_of_int w < 2" by simp
    then show ?thesis by linarith
  qed
  have c: "\<lfloor>real_of_int w * (4 / 10)\<rfloor> \<le> \<lfloor>real_of_int w * (6 / 10)\<rfloor>"
    using wr by (intro floor_mono) simp
  show "(\<forall>x \<in> set tpl. durationMins x \<noteq> None) \<and> 0 < sum_list (map slotDuration tpl)
         \<or> (\<forall>x \<in> set tpl. durationMins x = Some 0) \<and> w \<le> 1"
  proof (cases "\<lfloor>real_of_int w * (6 / 10)\<rfloor> = 0")
    case True
    with a c have "\<lfloor>real_of_int w * (4 / 10)\<rfloor> = 0" by linarith
    with True small show ?thesis
      unfolding sel by (simp add: template_defs slotDuration_def)
  next
    case False
    with a b have "0 < \<lfloor>real_of_int w * (4 / 10)\<rfloor> + \<lfloor>real_of_int w * (6 / 10)\<rfloor>"
      by linarith
    then show ?thesis
      unfolding sel by (simp add: template_defs slotDuration_def)
  qed
qed

lemma buildSkeleton_adjusted:
  assumes "wellFormedTime startTime" and "wellFormedTime endTime"
  shows "\<exists>adj. adjustDurations (selectTemplate b startTime endTime) startTime endTime = Some adj
           \<and> buildSkeleton b startTime endTime
               = Some \<lparr>slots = assignTimes adj startTime, totalBudget = amount b,
                        timeWindow = \<lparr>windowStart = startTime, windowEnd = endTime\<rparr>\<rparr>
           \<and> slotShares adj = slotShares (selectTemplate b startTime endTime)
           \<and> \<bar>sum_list (map slotDuration adj)
                - windowMins (minutesOfDay startTime) (minutesOfDay endTime)\<bar>
               \<le> int (length adj)"
proof -
  let ?tpl = "selectTemplate b startTime endTime"
  let ?w = "windowMins (minutesOfDay startTime) (minutesOfDay endTime)"
  note ps = parseTime_wellFormed [OF assms(1)] and pe = parseTime_wellFormed [OF assms(2)]
  note facts = selectTemplate_facts [OF assms, of b]
  have wr: "1 \<le> ?w"
    using minutesOfDay_range [OF assms(1)] minutesOfDay_range [OF assms(2)]
      windowMins_range [of "minutesOfDay startTime" "minutesOfDay endTime"] by simp
  from facts(3) have "\<exists>adj. adjustDurations ?tpl startTime endTime = Some adj
           \<and> slotShares adj = slotShares ?tpl
           \<and> \<bar>sum_list (map slotDuration adj) - ?w\<bar> \<le> int (length adj)"
  proof
    assume p: "(\<forall>x \<in> set ?tpl. durationMins x \<noteq> None) \<and> 0 < sum_list (map slotDuration ?tpl)"
    from adjustDurations_positive [OF _ ps pe, of ?tpl] p obtain adj where adj:
      "adjustDurations ?tpl startTime endTime = Some adj" "slotShares adj = slotShares ?tpl"
      "\<bar>real_of_int (sum_list (map slotDuration adj)) - real_of_int ?w\<bar> \<le> real (length adj) / 2"
      by blast
    have "real_of_int \<bar>sum_list (map slotDuration adj) - ?w\<bar> \<le> real_of_int (int (length adj))"
      using adj(3) by simp
    then have "\<bar>sum_list (map slotDuration adj) - ?w\<bar> \<le> int (length adj)"
      by (simp only: of_int_le_iff)
    with adj(1,2) show ?thesis by blast
  next
    assume z: "(\<forall>x \<in> set ?tpl. durationMins x = Some 0) \<and> ?w \<le> 1"
    from adjustDurations_zero [of ?tpl startTime endTime] z obtain adj where adj:
      "adjustDurations ?tpl startTime endTime = Some adj" "slotShares adj = slotShares ?tpl"
      "sum_list (map slotDuration adj) = 0"
      by blast
    have "length adj = length ?tpl"
      using arg_cong [OF adj(2), of length] by (simp add: slotShares_length)
    with facts(1) have "1 \<le> int (length adj)" by (cases adj) simp_all
    with z wr adj(3) have "\<bar>sum_list (map slotDuration adj) - ?w\<bar> \<le> int (length adj)"
      by simp
    with adj(1,2) show ?thesis by blast
  qed
  then obtain adj where adj: "adjustDurations ?tpl startTime endTime = Some adj"
    "slotShares adj = slotShares ?tpl"
    "\<bar>sum_list (map slotDuration adj) - ?w\<bar> \<le> int (length adj)"
    by blast
  from adj(1) have "buildSkeleton b startTime endTime
               = Some \<lparr>slots = assignTimes adj startTime, totalBudget = amount b,
                        timeWindow = \<lparr>windowStart = startTime, windowEnd = endTime\<rparr>\<rparr>"
    by (simp add: buildSkeleton_def)
  with adj show ?thesis by blast
qed

lemma buildSkeleton_returns:
  assumes "wellFormedTime startTime" and "wellFormedTime endTime"
  shows "\<exists>sk. buildSkeleton b startTime endTime = Some sk \<and> slots sk \<noteq> []"
proof -
  from buildSkeleton_adjusted [OF assms, of b] obtain adj where
    sk: "buildSkeleton b startTime endTime
               = Some \<lparr>slots = assignTimes adj startTime, totalBudget = amount b,
                        timeWindow = \<lparr>windowStart = startTime, windowEnd = endTime\<rparr>\<rparr>"
    and sh: "slotShares adj = slotShares (selectTemplate b startTime endTime)"
    by blast
  have "length (assignTimes adj startTime) = length (selectTemplate b startTime endTime)"
    using arg_cong [OF sh, of length]
    by (simp add: assignTimes_def assignTimesFrom_length slotShares_length)
  with selectTemplate_facts(1) [OF assms, of b] have "assignTimes adj startTime \<noteq> []"
    by auto
  with sk show ?thesis by simp
qed

text \<open>
  C2, as amended. For well-formed start and end times and any budget, \<open>buildSkeleton\<close>
  returns a skeleton whose slots have the types and budget shares of the template chosen by
  the first matching rule: amount below 80, BUDGET (scenic 5, activity 30, dinner 55,
  dessert 10); amount above 250, FANCY (drinks 12, activity 28, dinner 50, drinks 10);
  start at or after 20:00, LATE_START (dinner 55, activity 25, drinks 20); start at or
  after 14:00 and end at or before 18:00, AFTERNOON (drinks 15, activity 50, dinner 35);
  window below 180 minutes, the two-slot template (activity 40, dinner 60); otherwise
  DEFAULT (drinks 15, activity 25, dinner 50, dessert 10). The window is
  \<open>(end - start) mod 1440\<close> minutes when the two times differ and 1440 minutes when they are
  equal. A budget of 70 is below 80 and thus gives BUDGET whatever the times.
\<close>

theorem buildSkeleton_template_rules:
  assumes "wellFormedTime startTime" and "wellFormedTime endTime"
  shows "\<exists>sk. buildSkeleton b startTime endTime = Some sk
           \<and> slotShares (slots sk) =
               (if amount b < 80
                  then [(Scenic, 5), (Activity, 30), (Dinner, 55), (Dessert, 10)]
                else if amount b > 250
                  then [(Drinks, 12), (Activity, 28), (Dinner, 50), (Drinks, 10)]
                else if minutesOfDay startTime \<ge> 20 * 60
                  then [(Dinner, 55), (Activity, 25), (Drinks, 20)]
                else if minutesOfDay startTime \<ge> 14 * 60 \<and> minutesOfDay endTime \<le> 18 * 60
                  then [(Drinks, 15), (Activity, 50), (Dinner, 35)]
                else if (if minutesOfDay endTime = minutesOfDay startTime then 1440
                         else (minutesOfDay endTime - minutesOfDay startTime) mod 1440) < 180
                  then [(Activity, 40), (Dinner, 60)]
                else [(Drinks, 15), (Activity, 25), (Dinner, 50), (Dessert, 10)])"
proof -
  from buildSkeleton_adjusted [OF assms, of b] obtain adj where
    sk: "buildSkeleton b startTime endTime
               = Some \<lparr>slots = assignTimes adj startTime, totalBudget = amount b,
                        timeWindow = \<lparr>windowStart = startTime, windowEnd = endTime\<rparr>\<rparr>"
    and sh: "slotShares adj = slotShares (selectTemplate b startTime endTime)"
    by blast
  have w: "windowMins (minutesOfDay startTime) (minutesOfDay endTime)
           = (if minutesOfDay endTime = minutesOfDay startTime then 1440
              else (minutesOfDay endTime - minutesOfDay startTime) mod 1440)"
    using minutesOfDay_range [OF assms(1)] minutesOfDay_range [OF assms(2)]
    by (intro windowMins_mod) simp_all
  have "slotShares (assignTimes adj startTime) = slotShares (selectTemplate b startTime endTime)"
    using sh by (simp add: assignTimes_def assignTimesFrom_shares)
  also have "\<dots> =
               (if amount b < 80
                  then [(Scenic, 5), (Activity, 30), (Dinner, 55), (Dessert, 10)]
                else if amount b > 250
                  then [(Drinks, 12), (Activity, 28), (Dinner, 50), (Drinks, 10)]
                else if minutesOfDay startTime \<ge> 20 * 60
                  then [(Dinner, 55), (Activity, 25), (Drinks, 20)]
                else if minutesOfDay startTime \<ge> 14 * 60 \<and> minutesOfDay endTime \<le> 18 * 60
                  then [(Drinks, 15), (Activity, 50), (Dinner, 35)]
                else if windowMins (minutesOfDay startTime) (minutesOfDay endTime) < 180
                  then [(Activity, 40), (Dinner, 60)]
                else [(Drinks, 15), (Activity, 25), (Dinner, 50), (Dessert, 10)])"
    unfolding selectTemplate_wellFormed [OF assms]
    by (simp add: template_defs slotShares_def)
  finally show ?thesis using sk unfolding w by simp
qed

text \<open>
  C6, as amended. For well-formed start and end times and any budget, \<open>buildSkeleton\<close>
  returns a skeleton whose budget shares sum to a number in [95, 105] (it passes
  \<open>validateSkeleton\<close>) and whose durations sum to the window length within plus or minus
  the number of slots, where the window length is \<open>(end - start) mod 1440\<close> minutes when the
  two times differ and 1440 minutes when they are equal.
\<close>

theorem buildSkeleton_totals:
  assumes "wellFormedTime startTime" and "wellFormedTime endTime"
  shows "\<exists>sk. buildSkeleton b startTime endTime = Some sk
           \<and> validateSkeleton sk
           \<and> 95 \<le> totalPercent sk \<and> totalPercent sk \<le> 105
           \<and> \<bar>totalDuration sk
                - (if minutesOfDay endTime = minutesOfDay startTime then 1440
                   else (minutesOfDay endTime - minutesOfDay startTime) mod 1440)\<bar>
               \<le> int (length (slots sk))"
proof -
  let ?w = "windowMins (minutesOfDay startTime) (minutesOfDay endTime)"
  from buildSkeleton_adjusted [OF assms, of b] obtain adj where
    sk: "buildSkeleton b startTime endTime
               = Some \<lparr>slots = assignTimes adj startTime, totalBudget = amount b,
                        timeWindow = \<lparr>windowStart = startTime, windowEnd = endTime\<rparr>\<rparr>"
    and sh: "slotShares adj = slotShares (selectTemplate b startTime endTime)"
    and d: "\<bar>sum_list (map slotDuration adj) - ?w\<bar> \<le> int (length adj)"
    by blast
  define sk' where "sk' = \<lparr>slots = assignTimes adj startTime, totalBudget = amount b,
                        timeWindow = \<lparr>windowStart = startTime, windowEnd = endTime\<rparr>\<rparr>"
  have shares: "slotShares (slots sk') = slotShares (selectTemplate b startTime endTime)"
    using sh by (simp add: sk'_def assignTimes_def assignTimesFrom_shares)
  have pct: "totalPercent sk' = 100"
    unfolding totalPercent_def slotShares_percent shares
    by (rule selectTemplate_facts(2) [OF assms])
  have val: "validateSkeleton sk'"
    using pct by (simp add: validateSkeleton_def totalPercent_def foldl_plus)
  have w: "?w = (if minutesOfDay endTime = minutesOfDay startTime then 1440
                   else (minutesOfDay endTime - minutesOfDay startTime) mod 1440)"
    using minutesOfDay_range [OF assms(1)] minutesOfDay_range [OF assms(2)]
    by (intro windowMins_mod) simp_all
  have "totalDuration sk' = sum_list (map slotDuration adj)"
    by (simp add: totalDuration_def sk'_def assignTimes_def assignTimesFrom_durations)
  moreover have "length (slots sk') = length adj"
    by (simp add: sk'_def assignTimes_def assignTimesFrom_length)
  ultimately have "\<bar>totalDuration sk' - ?w\<bar> \<le> int (length (slots sk'))"
    using d by simp
  with w have "\<bar>totalDuration sk'
                - (if minutesOfDay endTime = minutesOfDay startTime then 1440
                   else (minutesOfDay endTime - minutesOfDay startTime) mod 1440)\<bar>
               \<le> int (length (slots sk'))" by simp
  with sk val pct show ?thesis unfolding sk'_def [symmetric] by simp
qed

lemmas time_defs = parseTime_def parseInt10_def isWhiteSpace_def digitValue_def decimalValue_def

lemmas wellFormed_defs = wellFormedTime_def isDigit_def digitValue_def clockHours_def
  clockMinutes_def digitOf_def

lemma example_times: "wellFormedTime ''10:00''" "wellFormedTime ''18:00''" "wellFormedTime ''23:30''"
  by (simp_all add: wellFormed_defs)

lemma example_minutes: "minutesOfDay ''10:00'' = 600" "minutesOfDay ''18:00'' = 1080"
  "minutesOfDay ''23:30'' = 1410"
  by (simp_all add: minutesOfDay_def clockHours_def clockMinutes_def digitOf_def digitValue_def)

text \<open>
  C2, as stated, fails when start and end coincide, the window being \<open>(end - start) mod
  1440\<close> = 0 minutes, which is below 180: from 10:00 to 10:00 with a budget of 150 no earlier
  rule applies, yet the skeleton has the DEFAULT template, not the two-slot one.
\<close>

theorem buildSkeleton_same_start_end_template:
  "wellFormedTime ''10:00''
   \<and> \<not> amount exampleBudget < 80 \<and> \<not> amount exampleBudget > 250
   \<and> minutesOfDay ''10:00'' < 14 * 60
   \<and> (minutesOfDay ''10:00'' - minutesOfDay ''10:00'') mod 1440 < 180
   \<and> map_option (\<lambda>sk. slotShares (slots sk)) (buildSkeleton exampleBudget ''10:00'' ''10:00'')
       = Some [(Drinks, 15), (Activity, 25), (Dinner, 50), (Dessert, 10)]
   \<and> map_option (\<lambda>sk. slotShares (slots sk)) (buildSkeleton exampleBudget ''10:00'' ''10:00'')
       \<noteq> Some [(Activity, 40), (Dinner, 60)]"
  by (simp add: example_times example_minutes buildSkeleton_def selectTemplate_def
      adjustDurations_def time_defs windowMins_def DEFAULT_TEMPLATE_def mathRound_def
      assignTimes_def slotShares_def exampleBudget_def)

text \<open>
  C6, as stated, fails when start and end coincide: from 10:00 to 10:00 with a budget of
  150 the four durations sum to 1440 minutes, while \<open>(end - start) mod 1440\<close> is 0.
\<close>

theorem buildSkeleton_same_start_end:
  "wellFormedTime ''10:00''
   \<and> map_option totalDuration (buildSkeleton exampleBudget ''10:00'' ''10:00'') = Some 1440
   \<and> map_option (\<lambda>sk. length (slots sk)) (buildSkeleton exampleBudget ''10:00'' ''10:00'') = Some 4
   \<and> (minutesOfDay ''10:00'' - minutesOfDay ''10:00'') mod 1440 = 0
   \<and> map_option
        (\<lambda>sk. \<bar>totalDuration sk - (minutesOfDay ''10:00'' - minutesOfDay ''10:00'') mod 1440\<bar>
                \<le> int (length (slots sk)))
        (buildSkeleton exampleBudget ''10:00'' ''10:00'') = Some False"
  by (simp add: example_times buildSkeleton_def selectTemplate_def adjustDurations_def time_defs
      windowMins_def DEFAULT_TEMPLATE_def mathRound_def assignTimes_def totalDuration_def
      slotDuration_def exampleBudget_def)

theorem buildSkeleton_totals_witness:
  "wellFormedTime ''18:00'' \<and> wellFormedTime ''23:30''
   \<and> map_option validateSkeleton (buildSkeleton exampleBudget ''18:00'' ''23:30'') = Some True
   \<and> map_option (\<lambda>sk. \<bar>totalDuration sk - 330\<bar> \<le> int (length (slots sk)))
        (buildSkeleton exampleBudget ''18:00'' ''23:30'') = Some True"
proof -
  from buildSkeleton_totals [OF example_times(2,3), of exampleBudget] obtain sk where
    "buildSkeleton exampleBudget ''18:00'' ''23:30'' = Some sk" "validateSkeleton sk"
    "\<bar>totalDuration sk - 330\<bar> \<le> int (length (slots sk))"
    by (auto simp: example_minutes)
  with example_times show ?thesis by simp
qed

theorem buildSkeleton_template_rules_witness:
  "wellFormedTime ''18:00'' \<and> wellFormedTime ''23:30''
   \<and> map_option (\<lambda>sk. slotShares (slots sk))
        (buildSkeleton (exampleBudget\<lparr>amount := 70\<rparr>) ''18:00'' ''23:30'')
      = Some [(Scenic, 5), (Activity, 30), (Dinner, 55), (Dessert, 10)]"
proof -
  from buildSkeleton_template_rules [OF example_times(2,3), of "exampleBudget\<lparr>amount := 70\<rparr>"]
  obtain sk where
    "buildSkeleton (exampleBudget\<lparr>amount := 70\<rparr>) ''18:00'' ''23:30'' = Some sk"
    "slotShares (slots sk) = [(Scenic, 5), (Activity, 30), (Dinner, 55), (Dessert, 10)]"
    by (auto simp: exampleBudget_def)
  with example_times show ?thesis by simp
qed

section \<open>Properties of the plan builder\<close>

lemma dedupe_distinct:
  "distinct (map placeId (dedupe seen vs)) \<and> placeId ` set (dedupe seen vs) \<inter> seen = {}"
proof (induction vs arbitrary: seen)
  case Nil
  show ?case by simp
next
  case (Cons v vs)
  show ?case
  proof (cases "placeId v \<in> seen")
    case True
    with Cons.IH [of seen] show ?thesis by simp
  next
    case False
    from Cons.IH [of "insert (placeId v) seen"] have
      d: "distinct (map placeId (dedupe (insert (placeId v) seen) vs))"
      and i: "placeId ` set (dedupe (insert (placeId v) seen) vs) \<inter> insert (placeId v) seen = {}"
      by simp_all
    from i have "placeId v \<notin> placeId ` set (dedupe (insert (placeId v) seen) vs)" by blast
    moreover from i have "placeId ` set (dedupe (insert (placeId v) seen) vs) \<inter> seen = {}"
      by blast
    ultimately show ?thesis using False d by auto
  qed
qed

lemma dedupe_subset: "set (dedupe seen vs) \<subseteq> set vs"
  by (induction vs arbitrary: seen) auto

lemma stopsLoop_venues:
  "map stopVenue (stopsLoop nts tt md ppb n vs clock prev counts) = vs"
  by (induction vs arbitrary: clock prev counts) (simp_all add: Let_def)

lemma stopsLoop_costs:
  "map estimatedCostRange (stopsLoop nts tt md ppb n vs clock prev counts)
     = map (estimateCost ppb n) vs"
  by (induction vs arbitrary: clock prev counts) (simp_all add: Let_def)

lemma priceMultiplier_pos: "0 < priceMultiplier p"
  by (simp add: priceMultiplier_def)

lemma categoryShares_pos: "map_of categoryShares c = Some share \<Longrightarrow> 0 < share"
  by (auto simp: categoryShares_def split: if_splits)

lemma mathRound_mono: "x \<le> y \<Longrightarrow> mathRound x \<le> mathRound y"
  unfolding mathRound_def by (intro floor_mono) simp

lemma estimateCost_ordered:
  assumes "0 \<le> x" and "0 < n" and "category v \<notin> set objectPrototypeKeys"
  shows "orderedRange (estimateCost (Finite x) n v)"
proof -
  obtain cb where cb: "(case getProperty categoryShares (category v) of
                              Own share \<Rightarrow> timesConst (Finite x) share
                            | Absent \<Rightarrow> timesConst (Finite x) (1 / real n)
                            | Inherited \<Rightarrow> NonFinite) = Finite cb" and nn: "0 \<le> cb"
  proof (cases "map_of categoryShares (category v)")
    case None
    with assms(3) have "getProperty categoryShares (category v) = Absent"
      by (simp add: getProperty_def)
    moreover have "0 \<le> x * (1 / real n)" using assms(1,2) by simp
    ultimately show ?thesis using that by simp
  next
    case (Some share)
    then have "getProperty categoryShares (category v) = Own share"
      by (simp add: getProperty_def)
    moreover have "0 \<le> x * share" using assms(1) categoryShares_pos [OF Some] by simp
    ultimately show ?thesis using that by simp
  qed
  define base where "base = cb * priceMultiplier (case priceLevel v of Some p \<Rightarrow> p | None \<Rightarrow> 2)"
  have b: "0 \<le> base"
    unfolding base_def using nn priceMultiplier_pos [of "case priceLevel v of Some p \<Rightarrow> p | None \<Rightarrow> 2"]
    by simp
  have "estimateCost (Finite x) n v
        = (Finite (real_of_int (mathRound (base * (8 / 10)))),
           Finite (real_of_int (mathRound (base * (12 / 10)))))"
    by (simp add: estimateCost_def cb base_def)
  moreover have "mathRound (base * (8 / 10)) \<le> mathRound (base * (12 / 10))"
    using b by (intro mathRound_mono) simp
  ultimately show ?thesis by (simp add: orderedRange_def)
qed

text \<open>
  C7, as amended. In every plan \<open>buildPlanFromVenues\<close> builds, whatever its arguments, no
  two stops share a place id. When the party size is not zero, the budget per person
  (budget divided by party size, with the defaults 100 and 2) is not negative, and no
  venue's category is the name of an inherited object property, every stop's estimated
  cost range is a pair of finite numbers with the low end at most the high end.
\<close>

theorem buildPlanFromVenues_stops:
  fixes numberToString pid ttl venues backupVenues startTime travelTimes md familyFriendlyArg
    and budgetArg partySizeArg :: "real option"
  defines "p \<equiv> buildPlanFromVenues numberToString pid ttl venues backupVenues startTime
                    travelTimes md familyFriendlyArg budgetArg partySizeArg"
    and "budgetTotal \<equiv> (case budgetArg of Some x \<Rightarrow> x | None \<Rightarrow> 100)"
    and "partySize \<equiv> (case partySizeArg of Some n \<Rightarrow> n | None \<Rightarrow> 2)"
  shows "distinct (map (\<lambda>s. placeId (stopVenue s)) (stops p))
       \<and> (partySize \<noteq> 0 \<and> 0 \<le> budgetTotal / partySize
            \<and> (\<forall>v \<in> set venues. category v \<notin> set objectPrototypeKeys)
          \<longrightarrow> (\<forall>s \<in> set (stops p). orderedRange (estimatedCostRange s)))"
proof -
  define order where "order = (if (case familyFriendlyArg of Some f \<Rightarrow> f | None \<Rightarrow> False)
             then [''activity'', ''dinner'', ''dessert'', ''scenic'', ''finish'', ''drinks'']
             else [''drinks'', ''activity'', ''dinner'', ''dessert'', ''finish'', ''scenic''])"
  define sorted where "sorted = sort_key (categoryRank order) (dedupe {} venues)"
  define n where "n = (if length sorted = 0 then 3 else length sorted)"
  define ppb where "ppb = (if partySize = 0 then NonFinite else Finite (budgetTotal / partySize))"
  have st: "stops p = stopsLoop numberToString travelTimes md ppb n sorted (Some startTime) None
                        Map.empty"
    unfolding p_def buildPlanFromVenues_def
    by (simp add: Let_def order_def sorted_def n_def ppb_def budgetTotal_def partySize_def)
  have v: "map stopVenue (stops p) = sorted" unfolding st by (rule stopsLoop_venues)
  have m: "mset (map placeId sorted) = mset (map placeId (dedupe {} venues))"
    by (simp add: sorted_def)
  have "distinct (map placeId sorted) = distinct (map placeId (dedupe {} venues))"
    by (rule mset_eq_imp_distinct_iff [OF m])
  with dedupe_distinct [of "{}" venues] have "distinct (map placeId sorted)" by simp
  moreover have "map (\<lambda>s. placeId (stopVenue s)) (stops p) = map placeId (map stopVenue (stops p))"
    by simp
  ultimately have d: "distinct (map (\<lambda>s. placeId (stopVenue s)) (stops p))"
    unfolding v by simp
  have c: "\<forall>s \<in> set (stops p). orderedRange (estimatedCostRange s)"
    if h: "partySize \<noteq> 0" "0 \<le> budgetTotal / partySize"
      "\<forall>v \<in> set venues. category v \<notin> set objectPrototypeKeys"
  proof -
    have npos: "0 < n" by (simp add: n_def)
    have ppb: "ppb = Finite (budgetTotal / partySize)" using h(1) by (simp add: ppb_def)
    have sub: "set sorted \<subseteq> set venues"
      using dedupe_subset [of "{}" venues] by (simp add: sorted_def)
    have "\<forall>r \<in> set (map (estimateCost ppb n) sorted). orderedRange r"
      using sub h(2,3) npos unfolding ppb by (auto intro: estimateCost_ordered)
    then have "\<forall>r \<in> set (map estimatedCostRange (stops p)). orderedRange r"
      unfolding st stopsLoop_costs .
    then show ?thesis by simp
  qed
  from d c show ?thesis by blast
qed


lemmas plan_defs =
  buildPlanFromVenues_def categoryRank_def estimateCost_def getProperty_def categoryShares_def
  objectPrototypeKeys_def priceMultiplier_def mathRound_def

text \<open>
  C7, as stated, fails for a negative budget: with a budget of -100 for two people a dinner
  stop is estimated at [-18, -27]. It also fails for a venue whose category is
  \<open>constructor\<close>: the budget share read from \<open>categoryBudgets\<close> is then not a number and both
  ends of the range are NaN.
\<close>

theorem buildPlanFromVenues_unordered_range:
  "map estimatedCostRange
     (stops (buildPlanFromVenues exampleNumberText PlanA ''Evening'' [exampleVenueA] []
               ''18:00'' Map.empty Standard None (Some (- 100)) (Some 2)))
     = [(Finite (- 18), Finite (- 27))]
   \<and> \<not> orderedRange (Finite (- 18), Finite (- 27))
   \<and> map estimatedCostRange
        (stops (buildPlanFromVenues exampleNumberText PlanA ''Evening''
                  [exampleVenueA\<lparr>category := ''constructor''\<rparr>] []
                  ''18:00'' Map.empty Standard None (Some 100) (Some 2)))
      = [(NonFinite, NonFinite)]
   \<and> \<not> orderedRange (NonFinite, NonFinite)"
  by (simp add: plan_defs stopsLoop_costs orderedRange_def exampleVenueA_def)

lemma example_categories:
  "category exampleVenueA \<notin> set objectPrototypeKeys"
  "category exampleVenueB \<notin> set objectPrototypeKeys"
  by (simp_all add: exampleVenueA_def exampleVenueB_def objectPrototypeKeys_def)

theorem buildPlanFromVenues_stops_witness:
  "(2 :: real) \<noteq> 0 \<and> (0 :: real) \<le> 200 / 2
   \<and> list_all (\<lambda>v. category v \<notin> set objectPrototypeKeys)
        [exampleVenueA, exampleVenueB, exampleVenueA]
   \<and> distinct (map (\<lambda>s. placeId (stopVenue s))
        (stops (buildPlanFromVenues exampleNumberText PlanA ''Evening''
                  [exampleVenueA, exampleVenueB, exampleVenueA] [exampleVenueB]
                  ''18:00'' Map.empty Standard None (Some 200) (Some 2))))
   \<and> list_all (\<lambda>s. orderedRange (estimatedCostRange s))
        (stops (buildPlanFromVenues exampleNumberText PlanA ''Evening''
                  [exampleVenueA, exampleVenueB, exampleVenueA] [exampleVenueB]
                  ''18:00'' Map.empty Standard None (Some 200) (Some 2)))"
  using buildPlanFromVenues_stops [of exampleNumberText PlanA "''Evening''"
      "[exampleVenueA, exampleVenueB, exampleVenueA]" "[exampleVenueB]" "''18:00''" Map.empty
      Standard None "Some 200" "Some 2"]
  by (simp add: example_categories list_all_iff)

lemma example_plan_costs:
  "map estimatedCostRange
     (stops (buildPlanFromVenues exampleNumberText PlanA ''Evening''
                  [exampleVenueA, exampleVenueB, exampleVenueA] [exampleVenueB]
                  ''18:00'' Map.empty Standard None (Some 200) (Some 2)))
   = [(Finite 36, Finite 54), (Finite 36, Finite 54)]"
  by (simp add: plan_defs Let_def exampleVenueA_def exampleVenueB_def)

section \<open>Normal return and exceptions\<close>

lemma vibesLoop_returns:
  assumes "\<forall>vb \<in> set vs. vb \<notin> set objectPrototypeKeys"
  shows "\<exists>s. vibesLoop vn vs s0 = Inr s"
  using assms
proof (induction vs arbitrary: s0)
  case Nil
  show ?case by simp
next
  case (Cons v vs)
  then have "getProperty vibeKeywords v \<noteq> Inherited"
    by (simp add: getProperty_def split: option.splits)
  with Cons show ?case by (cases "getProperty vibeKeywords v") simp_all
qed

lemma scorePreferenceMatch_returns:
  assumes "\<forall>vb \<in> set (vibe prefs). toLowerCase vb \<notin> set objectPrototypeKeys"
  shows "\<exists>s. scorePreferenceMatch v prefs = Inr s"
proof -
  from assms have "\<forall>vb \<in> set (map toLowerCase (vibe prefs)). vb \<notin> set objectPrototypeKeys"
    by simp
  from vibesLoop_returns [OF this] obtain s where
    "vibesLoop (toLowerCase (name v)) (map toLowerCase (vibe prefs))
       (likesLoop (toLowerCase (name v)) (toLowerCase (category v))
          (map toLowerCase (likes prefs)) (1 / 2)) = Inr s"
    by blast
  then show ?thesis by (simp add: scorePreferenceMatch_def)
qed

lemma rankVenues_returns:
  assumes "\<forall>vb \<in> set (vibe prefs). toLowerCase vb \<notin> set objectPrototypeKeys"
  shows "\<exists>ranked. rankVenues venues prefs t refLoc = Inr ranked"
proof -
  have ex: "\<exists>y. scoreVenue prefs t r v = Inr y" for r v
    using scorePreferenceMatch_returns [OF assms, of v]
    by (auto simp: scoreVenue_def Let_def)
  have "\<exists>ys. mapE (scoreVenue prefs t
                (case refLoc of Some l \<Rightarrow> l | None \<Rightarrow> calculateCentroid venues)) venues = Inr ys"
    by (rule mapE_total) (rule ex)
  then show ?thesis by (auto simp: rankVenues_def)
qed

lemma rankVenues_empty: "rankVenues [] prefs t refLoc = Inr []"
  by (simp add: rankVenues_def sortByScore_def)

lemma clusterByProximity_empty: "clusterByProximity [] radius = []"
  by (simp add: clusterByProximity_def)

lemma selectBestVenues_empty:
  "selectBestVenues \<lparr>activity = [], dinner = [], finish = []\<rparr> prefs budgetPerCategory
     = Inr \<lparr>selected = Map.empty,
            backups = [''activity'' \<mapsto> [], ''dinner'' \<mapsto> [], ''finish'' \<mapsto> []]\<rparr>"
  by (simp add: selectBestVenues_def rankVenues_empty pick_def)

lemma rerank_returns:
  assumes "\<forall>vb \<in> set (vibe prefs). toLowerCase vb \<notin> set objectPrototypeKeys"
  shows "\<exists>sel'. rerank c pool prefs t loc ranked sel = Inr sel'"
  using rankVenues_returns [OF assms, of pool t "Some loc"] by (auto simp: rerank_def)

lemma selectBestVenues_returns:
  assumes "\<forall>vb \<in> set (vibe prefs). toLowerCase vb \<notin> set objectPrototypeKeys"
  shows "\<exists>sel. selectBestVenues pools prefs budgetPerCategory = Inr sel"
proof -
  from rankVenues_returns [OF assms] obtain ra where
    ra: "rankVenues (activity pools) prefs (activity budgetPerCategory) None = Inr ra" by blast
  from rankVenues_returns [OF assms] obtain rd where
    rd: "rankVenues (dinner pools) prefs (dinner budgetPerCategory) None = Inr rd" by blast
  from rankVenues_returns [OF assms] obtain rf where
    rf: "rankVenues (finish pools) prefs (finish budgetPerCategory) None = Inr rf" by blast
  define sel3 where "sel3 = pick ''finish'' 2 rf (pick ''dinner'' 3 rd (pick ''activity'' 2 ra
     \<lparr>selected = Map.empty,
      backups = [''activity'' \<mapsto> [], ''dinner'' \<mapsto> [], ''finish'' \<mapsto> []]\<rparr>))"
  show ?thesis
  proof (cases "selected sel3 ''dinner''")
    case None
    then show ?thesis
      by (simp add: selectBestVenues_def ra rd rf Let_def sel3_def)
  next
    case (Some d)
    from rerank_returns [OF assms] obtain sel4 where
      s4: "rerank ''activity'' (activity pools) prefs (activity budgetPerCategory) (location d)
             ra sel3 = Inr sel4" by blast
    from rerank_returns [OF assms] obtain sel5 where
      s5: "rerank ''finish'' (finish pools) prefs (finish budgetPerCategory) (location d)
             rf sel4 = Inr sel5" by blast
    from Some s4 s5 show ?thesis
      by (simp add: selectBestVenues_def ra rd rf Let_def sel3_def)
  qed
qed

text \<open>
  C9 (evaluation with a vibe that names an inherited property). The vibe \<open>Constructor\<close> is
  lower-cased to \<open>constructor\<close>; \<open>vibeKeywords["constructor"]\<close> is the inherited
  \<open>Object\<close> function, which \<open>??\<close> keeps and \<open>for ... of\<close> cannot iterate: \<open>rankVenues\<close> on a
  non-empty list, and with it \<open>selectBestVenues\<close>, ends in a TypeError.
\<close>

theorem rankVenues_inherited_vibe_throws:
  "rankVenues [exampleVenueA] (examplePrefs\<lparr>vibe := [''Constructor'']\<rparr>) 30 None = Inl TypeError
   \<and> selectBestVenues \<lparr>activity = [], dinner = [exampleVenueA], finish = []\<rparr>
        (examplePrefs\<lparr>vibe := [''Constructor'']\<rparr>) exampleBudgets = Inl TypeError"
  by (simp add: selectBestVenues_def rankVenues_def scoring_defs example_defs exampleBudgets_def
      sortByScore_def)

end
